theory Spec2Isabelle
  imports Complex_Main "HOL-Library.Char_ord" "HOL-Library.List_Lexorder" "HOL-Library.Multiset"
begin

section \<open>Python values shared by the notebooks\<close>

text \<open>
  The notebooks are Python. Strings are \<open>string\<close> (lists of characters, compared
  lexicographically by character code as Python compares \<open>str\<close>), Python integers are
  \<open>int\<close>, a raised exception is the \<open>Inl\<close> branch of a sum.
\<close>

datatype py_error = ValueError | IndexError | KeyError | AttributeError | TypeError
  | SyntaxError | NameError | RecursionError

text \<open>
  \<open>s.split(sep)\<close> for a one-character separator: the pieces between the occurrences
  of \<open>sep\<close>, empty pieces kept, so that an empty string gives one empty piece.
\<close>

fun str_split :: "char \<Rightarrow> string \<Rightarrow> string list" where
  "str_split sep [] = [[]]"
| "str_split sep (c # cs) =
     (if c = sep then [] # str_split sep cs
      else (case str_split sep cs of [] \<Rightarrow> [[c]] | w # ws \<Rightarrow> (c # w) # ws))"

text \<open>\<open>sep.join(pieces)\<close>, used to say what a split is.\<close>

fun str_join :: "char \<Rightarrow> string list \<Rightarrow> string" where
  "str_join sep [] = []"
| "str_join sep [w] = w"
| "str_join sep (w # v # ws) = w @ sep # str_join sep (v # ws)"

text \<open>
  \<open>xs[i]\<close> on a list: a negative index counts from the end, an index out of range
  raises \<open>IndexError\<close>.
\<close>

definition py_index :: "'a list \<Rightarrow> int \<Rightarrow> py_error + 'a" where
  "py_index xs i =
     (if 0 \<le> i \<and> i < int (length xs) then Inr (xs ! nat i)
      else if i < 0 \<and> - int (length xs) \<le> i then Inr (xs ! nat (int (length xs) + i))
      else Inl IndexError)"

section \<open>Text preprocessing: \<open>tokenize\<close>\<close>

text \<open>
  \<^verbatim>\<open>
  def tokenize(lines, token='word'):
      if token == 'word':
          return [line.split(' ') for line in lines]
      elif token == 'char':
          return [list(line) for line in lines]
      else:
          print('ERROR: unkown token type '+token)
  \<close>
  The result is the pair of what was printed (one string per \<open>print\<close> call) and the
  returned value; falling off the end of the function returns \<open>None\<close>. \<open>list(line)\<close>
  is the list of the one-character strings of \<open>line\<close>.
\<close>

definition tokenize :: "string list \<Rightarrow> string \<Rightarrow> string list \<times> string list list option" where
  "tokenize lines token =
     (if token = ''word'' then ([], Some (map (str_split CHR '' '') lines))
      else if token = ''char'' then ([], Some (map (map (\<lambda>c. [c])) lines))
      else ([''ERROR: unkown token type '' @ token], None))"

section \<open>Text preprocessing: \<open>Vocab\<close>\<close>

text \<open>
  \<^verbatim>\<open>
  def count_corpus(sentences):
      tokens = [tk for line in sentences for tk in line]
      return collections.Counter(tokens)
  \<close>
  A \<open>Counter\<close> is a dictionary from token to count that keeps its keys in the order
  of their first occurrence; it is the association list of \<open>items()\<close>. Counting one
  more token increments its entry or appends a new entry with count one.
\<close>

fun counter_add :: "'a \<Rightarrow> ('a \<times> nat) list \<Rightarrow> ('a \<times> nat) list" where
  "counter_add t [] = [(t, 1)]"
| "counter_add t ((k, c) # kcs) =
     (if k = t then (k, Suc c) # kcs else (k, c) # counter_add t kcs)"

definition Counter :: "'a list \<Rightarrow> ('a \<times> nat) list" where
  "Counter ts = foldl (\<lambda>m t. counter_add t m) [] ts"

definition count_corpus :: "string list list \<Rightarrow> (string \<times> nat) list" where
  "count_corpus sentences = Counter (concat sentences)"

text \<open>
  \<^verbatim>\<open>
  class Vocab(object):
      def __init__(self, tokens, min_freq=0, use_special_tokens=False):
          counter = count_corpus(tokens)
          self.token_freqs = sorted(counter.items(), key=lambda x: x[0])
          self.token_freqs.sort(key=lambda x: x[1], reverse=True)
          if use_special_tokens:
              self.pad, self.bos, self.eos, self.unk = (0, 1, 2, 3)
              uniq_tokens = ['<pad>', '<bos>', '<eos>', '<unk>']
          else:
              self.unk, uniq_tokens = 0, ['<unk>']
          uniq_tokens += [token for token, freq in self.token_freqs
                          if freq >= min_freq and token not in uniq_tokens]
          self.idx_to_token, self.token_to_idx = [], dict()
          for token in uniq_tokens:
              self.idx_to_token.append(token)
              self.token_to_idx[token] = len(self.idx_to_token) - 1
  \<close>
  The attributes \<open>pad\<close>, \<open>bos\<close> and \<open>eos\<close> exist only with special tokens.
  Python's sorts are stable, and a stable sort with \<open>reverse=True\<close> keeps the
  original order of equal keys: it is the stable sort on the negated key. \<open>sort_key\<close>
  is a stable insertion sort. The right-hand side of \<open>+=\<close> is evaluated before
  \<open>uniq_tokens\<close> is extended, so \<open>token not in uniq_tokens\<close> tests the special tokens.
\<close>

record Vocab =
  token_freqs :: "(string \<times> nat) list"
  pad :: "int option"
  bos :: "int option"
  eos :: "int option"
  unk :: int
  idx_to_token :: "string list"
  token_to_idx :: "string \<rightharpoonup> int"

definition special_tokens :: "bool \<Rightarrow> string list" where
  "special_tokens use_special_tokens =
     (if use_special_tokens then [''<pad>'', ''<bos>'', ''<eos>'', ''<unk>''] else [''<unk>''])"

text \<open>The final loop, on the pair of \<open>idx_to_token\<close> and \<open>token_to_idx\<close>.\<close>

fun index_tokens ::
  "string list \<Rightarrow> string list \<times> (string \<rightharpoonup> int) \<Rightarrow> string list \<times> (string \<rightharpoonup> int)" where
  "index_tokens [] st = st"
| "index_tokens (token # rest) (its, tti) =
     (let its' = its @ [token]
      in index_tokens rest (its', tti(token \<mapsto> int (length its') - 1)))"

definition Vocab_init :: "string list list \<Rightarrow> int \<Rightarrow> bool \<Rightarrow> Vocab" where
  "Vocab_init tokens min_freq use_special_tokens =
     (let counter = count_corpus tokens;
          freqs = sort_key (\<lambda>x. - int (snd x)) (sort_key fst counter);
          uniq0 = special_tokens use_special_tokens;
          uniq_tokens = uniq0 @ [token. (token, freq) \<leftarrow> freqs,
                                  min_freq \<le> int freq \<and> token \<notin> set uniq0];
          (its, tti) = index_tokens uniq_tokens ([], Map.empty)
      in \<lparr> token_freqs = freqs,
           pad = (if use_special_tokens then Some 0 else None),
           bos = (if use_special_tokens then Some 1 else None),
           eos = (if use_special_tokens then Some 2 else None),
           unk = (if use_special_tokens then 3 else 0),
           idx_to_token = its,
           token_to_idx = tti \<rparr>)"

text \<open>
  \<^verbatim>\<open>
      def __len__(self):
          return len(self.idx_to_token)

      def __getitem__(self, tokens):
          if not isinstance(tokens, (list, tuple)):
              return self.token_to_idx.get(tokens, self.unk)
          return [self.__getitem__(token) for token in tokens]

      def to_tokens(self, indices):
          if not isinstance(indices, (list, tuple)):
              return self.idx_to_token[indices]
          return [self.idx_to_token[index] for index in indices]
  \<close>
  An argument is one value or a list of arguments. \<open>__getitem__\<close> recurses into
  nested lists; \<open>to_tokens\<close> indexes with each element of a list, where a list as an
  index raises \<open>TypeError\<close>, and the first exception ends the comprehension.
\<close>

definition Vocab_len :: "Vocab \<Rightarrow> int" where
  "Vocab_len v = int (length (idx_to_token v))"

datatype 'a py_arg = One 'a | Many "'a py_arg list"

fun getitem :: "Vocab \<Rightarrow> string py_arg \<Rightarrow> int py_arg" where
  "getitem v (One t) = One (case token_to_idx v t of None \<Rightarrow> unk v | Some i \<Rightarrow> i)"
| "getitem v (Many ts) = Many (map (getitem v) ts)"

fun index_each :: "string list \<Rightarrow> int py_arg list \<Rightarrow> py_error + string py_arg list" where
  "index_each its [] = Inr []"
| "index_each its (One i # rest) =
     (case py_index its i of
        Inl e \<Rightarrow> Inl e
      | Inr t \<Rightarrow> (case index_each its rest of Inl e \<Rightarrow> Inl e | Inr ts \<Rightarrow> Inr (One t # ts)))"
| "index_each its (Many _ # rest) = Inl TypeError"

fun to_tokens :: "Vocab \<Rightarrow> int py_arg \<Rightarrow> py_error + string py_arg" where
  "to_tokens v (One i) =
     (case py_index (idx_to_token v) i of Inl e \<Rightarrow> Inl e | Inr t \<Rightarrow> Inr (One t))"
| "to_tokens v (Many indices) =
     (case index_each (idx_to_token v) indices of Inl e \<Rightarrow> Inl e | Inr ts \<Rightarrow> Inr (Many ts))"

text \<open>
  Two notions for the statements below. \<open>freq_order x y\<close>: the entry \<open>x\<close> has the
  larger count, or the same count and the smaller token. \<open>vocab_tokens\<close>: the tokens
  the constructor appends after the special ones.
\<close>

definition freq_order :: "(string \<times> nat) \<Rightarrow> (string \<times> nat) \<Rightarrow> bool" where
  "freq_order x y \<longleftrightarrow> snd y < snd x \<or> (snd x = snd y \<and> fst x < fst y)"

definition vocab_tokens :: "string list list \<Rightarrow> int \<Rightarrow> bool \<Rightarrow> string list" where
  "vocab_tokens tokens min_freq use_special_tokens =
     map fst (filter (\<lambda>x. min_freq \<le> int (snd x) \<and> fst x \<notin> set (special_tokens use_special_tokens))
       (sort_key (\<lambda>x. - int (snd x)) (sort_key fst (count_corpus tokens))))"

section \<open>Single-precision numbers\<close>

text \<open>
  The arrays of the transposed-convolution notebook are \<open>mxnet.np\<close> arrays. They hold
  IEEE 754 single-precision numbers: \<open>np.array\<close> of Python numbers, \<open>np.zeros\<close> and
  \<open>np.arange\<close> give \<open>float32\<close> when no dtype is asked for. A finite number is the
  rational it denotes, and the operations below only build \<open>Fin x\<close> for an \<open>x\<close> that
  single precision represents. The two signed zeros are the one value \<open>Fin 0\<close>: \<open>==\<close>
  does not tell them apart, and nothing here divides. All NaNs are the one value \<open>NaN\<close>.
\<close>

datatype f32 = Fin rat | PInf | NInf | NaN

text \<open>The integer nearest to \<open>y\<close>, the even one of the two when \<open>y\<close> lies half-way.\<close>

definition round_half_even :: "rat \<Rightarrow> int" where
  "round_half_even y =
     (let f = \<lfloor>y\<rfloor>; d = y - of_int f
      in if d < 1 / 2 then f else if 1 / 2 < d then f + 1 else if even f then f else f + 1)"

text \<open>
  The single-precision numbers of magnitude below \<open>2 ^ (e + 24)\<close> are the multiples of
  \<open>2 ^ e\<close>, for \<open>e\<close> from \<open>-149\<close> (the subnormal numbers and the smallest normal
  ones) to \<open>104\<close> (the largest ones). \<open>grid_exp k e x\<close> looks for the least such
  exponent for \<open>x\<close> among the \<open>k\<close> exponents from \<open>e\<close> on, and stops at \<open>e + k\<close>.
\<close>

fun grid_exp :: "nat \<Rightarrow> int \<Rightarrow> rat \<Rightarrow> int" where
  "grid_exp 0 e x = e"
| "grid_exp (Suc k) e x = (if \<bar>x\<bar> < 2 powi (e + 24) then e else grid_exp k (e + 1) x)"

text \<open>
  Rounding to nearest, ties to even, which is the rounding of every operation below: the
  nearest multiple of the grid of \<open>x\<close>, and an infinity when that is \<open>2 ^ 128\<close> or
  more in magnitude.
\<close>

definition round32 :: "rat \<Rightarrow> f32" where
  "round32 x =
     (let e = grid_exp 253 (- 149) x; n = round_half_even (x / 2 powi e)
      in if e = 104 \<and> 2 ^ 24 \<le> \<bar>n\<bar> then (if 0 < x then PInf else NInf)
         else Fin (of_int n * 2 powi e))"

fun f32_sgn :: "f32 \<Rightarrow> int" where
  "f32_sgn (Fin x) = (if x = 0 then 0 else if 0 < x then 1 else - 1)"
| "f32_sgn PInf = 1"
| "f32_sgn NInf = - 1"
| "f32_sgn NaN = 0"

definition f32_inf :: "int \<Rightarrow> f32" where
  "f32_inf s = (if s = 0 then NaN else if 0 < s then PInf else NInf)"

text \<open>
  The product: an infinity times a non-zero number is an infinity with the product of
  the signs, and zero times an infinity is NaN.
\<close>

fun fmul :: "f32 \<Rightarrow> f32 \<Rightarrow> f32" where
  "fmul (Fin x) (Fin y) = round32 (x * y)"
| "fmul NaN b = NaN"
| "fmul a NaN = NaN"
| "fmul a b = f32_inf (f32_sgn a * f32_sgn b)"

text \<open>The sum: the two infinities of opposite sign add up to NaN.\<close>

fun fadd :: "f32 \<Rightarrow> f32 \<Rightarrow> f32" where
  "fadd (Fin x) (Fin y) = round32 (x + y)"
| "fadd NaN b = NaN"
| "fadd a NaN = NaN"
| "fadd PInf NInf = NaN"
| "fadd NInf PInf = NaN"
| "fadd PInf b = PInf"
| "fadd a PInf = PInf"
| "fadd NInf b = NInf"
| "fadd a NInf = NInf"

text \<open>\<open>a == b\<close> on two numbers: NaN is equal to nothing, itself included.\<close>

definition eq32 :: "f32 \<Rightarrow> f32 \<Rightarrow> bool" where
  "eq32 a b = (a = b \<and> a \<noteq> NaN)"

text \<open>
  The entry that \<open>np.array\<close> makes of a Python integer is the integer rounded;
  \<open>f32_exact n\<close> is the integer itself, which is that entry when \<open>n\<close> has at most 24
  bits.
\<close>

definition f32_of_int :: "int \<Rightarrow> f32" where
  "f32_of_int n = round32 (of_int n)"

definition f32_exact :: "int \<Rightarrow> f32" where
  "f32_exact n = Fin (of_int n)"

section \<open>Transposed convolution\<close>

text \<open>
  A two-dimensional array is the list of its rows. An array with no row has no column
  either.
\<close>

type_synonym 'a matrix = "'a list list"

definition ncols :: "'a matrix \<Rightarrow> nat" where
  "ncols X = (case X of [] \<Rightarrow> 0 | row # _ \<Rightarrow> length row)"

definition zeros :: "nat \<Rightarrow> nat \<Rightarrow> f32 matrix" where
  "zeros r c = replicate r (replicate c (Fin 0))"

text \<open>\<open>x * K\<close> for a scalar \<open>x\<close>.\<close>

definition scale :: "f32 \<Rightarrow> f32 matrix \<Rightarrow> f32 matrix" where
  "scale x K = map (map (fmul x)) K"

text \<open>
  \<open>Y[i: i + h, j: j + w] += B\<close> for a block \<open>B\<close> of \<open>h\<close> rows and \<open>w\<close> columns
  that lies inside \<open>Y\<close>; \<open>add_at\<close> is the same on one row.
\<close>

definition add_at :: "nat \<Rightarrow> f32 list \<Rightarrow> f32 list \<Rightarrow> f32 list" where
  "add_at j b y = take j y @ map2 fadd (take (length b) (drop j y)) b @ drop (j + length b) y"

definition add_block :: "f32 matrix \<Rightarrow> nat \<Rightarrow> nat \<Rightarrow> f32 matrix \<Rightarrow> f32 matrix" where
  "add_block Y i j B =
     take i Y @ map2 (\<lambda>y b. add_at j b y) (take (length B) (drop i Y)) B @ drop (i + length B) Y"

text \<open>
  \<^verbatim>\<open>
  def trans_conv(X, K):
      h, w = K.shape
      Y = np.zeros((X.shape[0] + h - 1, X.shape[1] + w - 1))
      for i in range(X.shape[0]):
          for j in range(X.shape[1]):
              Y[i: i + h, j: j + w] += X[i, j] * K
      return Y
  \<close>
  \<open>np.zeros\<close> raises \<open>ValueError\<close> on a negative dimension.
\<close>

definition trans_conv :: "f32 matrix \<Rightarrow> f32 matrix \<Rightarrow> py_error + f32 matrix" where
  "trans_conv X K =
     (let h = length K; w = ncols K in
      if length X + h = 0 \<or> ncols X + w = 0 then Inl ValueError
      else Inr (fold (\<lambda>i. fold (\<lambda>j Y. add_block Y i j (scale (X ! i ! j) K)) [0..<ncols X])
                  [0..<length X] (zeros (length X + h - 1) (ncols X + w - 1))))"

text \<open>
  \<open>xs[lo:hi] = vs\<close> on a one-dimensional array, for \<open>lo \<le> hi \<le> len(xs)\<close>: the
  values must be as many as the slice is long, or a single value that is repeated
  (broadcast); anything else raises \<open>ValueError\<close>. \<open>set_slice\<close> is the assignment of
  values that fit.
\<close>

definition assign_slice :: "'a list \<Rightarrow> nat \<Rightarrow> nat \<Rightarrow> 'a list \<Rightarrow> py_error + 'a list" where
  "assign_slice xs lo hi vs =
     (if length vs = hi - lo then Inr (take lo xs @ vs @ drop hi xs)
      else if length vs = 1 then Inr (take lo xs @ replicate (hi - lo) (hd vs) @ drop hi xs)
      else Inl ValueError)"

definition set_slice :: "nat \<Rightarrow> 'a list \<Rightarrow> 'a list \<Rightarrow> 'a list" where
  "set_slice lo vs xs = take lo xs @ vs @ drop (lo + length vs) xs"

text \<open>
  \<^verbatim>\<open>
  def kernel2matrix(K):
      k, W = np.zeros(5), np.zeros((4, 9))
      k[:2], k[3:5] = K[0, :], K[1, :]
      W[0, :5], W[1, 1:6], W[2, 3:8], W[3, 4:] = k, k, k, k
      return W
  \<close>
  The right-hand sides \<open>K[0, :]\<close> and \<open>K[1, :]\<close> are evaluated first and raise
  \<open>IndexError\<close> on a kernel of fewer than two rows.
\<close>

definition kernel2matrix :: "f32 matrix \<Rightarrow> py_error + f32 matrix" where
  "kernel2matrix K =
     (case K of
        r0 # r1 # _ \<Rightarrow>
          (case assign_slice (replicate 5 (Fin 0)) 0 2 r0 of
             Inl e \<Rightarrow> Inl e
           | Inr k1 \<Rightarrow>
               (case assign_slice k1 3 5 r1 of
                  Inl e \<Rightarrow> Inl e
                | Inr k \<Rightarrow>
                    Inr [set_slice 0 k (replicate 9 (Fin 0)), set_slice 1 k (replicate 9 (Fin 0)),
                         set_slice 3 k (replicate 9 (Fin 0)), set_slice 4 k (replicate 9 (Fin 0))]))
      | _ \<Rightarrow> Inl IndexError)"

text \<open>
  The array operations the notebook compares with: \<open>np.dot(M, v)\<close> of a matrix and a
  vector, \<open>reshape(r, c)\<close> of a vector of \<open>r * c\<close> entries, \<open>X.reshape(-1)\<close> is
  \<open>concat X\<close> and \<open>W.T\<close> is \<open>transpose W\<close>. An entry of \<open>np.dot(M, v)\<close> is the sum
  of the products of a row with the vector. The products are added here from left to
  right, starting from zero, each product and each sum rounded. The library behind
  \<open>np.dot\<close> may add them in another order or round a product and a sum together,
  which can change the last bit of a rounded sum. It changes nothing where every
  product and every sum of products is an integer of at most 24 bits, which single
  precision holds, and nothing where a product is NaN, which makes the sum NaN.
\<close>

definition dot :: "f32 matrix \<Rightarrow> f32 list \<Rightarrow> f32 list" where
  "dot M v = map (\<lambda>row. foldl fadd (Fin 0) (map2 fmul row v)) M"



text \<open>
  Modelled from the spec: \<open>corr2d\<close> is a function of the \<open>d2l\<close> package that the
  notebook calls and does not define. The notebook states what it computes,
  \<open>Y[i, j] = (X[i: i + h, j: j + w] * K).sum()\<close>, with one entry for every position
  of the kernel inside \<open>X\<close>: \<open>X.shape[0] - h + 1\<close> rows and \<open>X.shape[1] - w + 1\<close>
  columns. The sum adds the products row by row, as \<open>dot\<close> does.
\<close>

definition corr2d :: "f32 matrix \<Rightarrow> f32 matrix \<Rightarrow> f32 matrix" where
  "corr2d X K =
     (let h = length K; w = ncols K in
      map (\<lambda>i. map (\<lambda>j. foldl fadd (Fin 0) (concat (map2 (map2 fmul)
                   (map (\<lambda>row. take w (drop j row)) (take h (drop i X))) K)))
            [0..<ncols X + 1 - w])
        [0..<length X + 1 - h])"

section \<open>The recommender example: \<open>CTRDataset\<close>\<close>

text \<open>
  The data file is the list of its lines as the file iterator yields them, each with
  its newline. \<open>line.rstrip('\n').split('\t')\<close> gives the values of a line.
\<close>

definition rstrip_newline :: "string \<Rightarrow> string" where
  "rstrip_newline s = rev (dropWhile (\<lambda>c. c = CHR 0x0A) (rev s))"

definition line_values :: "string \<Rightarrow> string list" where
  "line_values line = str_split (CHR 0x09) (rstrip_newline line)"

text \<open>
  An instance is a dictionary with the key \<open>y\<close> and, once a feature was appended,
  the key \<open>x\<close>. The dictionaries of the dataset are association lists in insertion
  order, but for \<open>data\<close>, which is only read by key. Labels have the type \<open>'f\<close> of
  what \<open>np.float32\<close> returns; feature indices and offsets, which the code holds in
  arrays, are integers.
\<close>

record 'f ctr_instance =
  inst_y :: "'f list"
  inst_x :: "string list option"

record 'f CTRDataset =
  NUM_FEATS :: nat
  count_ds :: int
  data :: "int \<rightharpoonup> 'f ctr_instance"
  feat_mapper :: "(int \<times> (string \<times> int) list) list option"
  defaults :: "(int \<times> int) list option"
  field_dims :: "int list"
  offsets :: "int list"

text \<open>
  \<open>feat_cnts[i][v] += 1\<close> on the two-level \<open>defaultdict\<close>.
\<close>

fun feat_add :: "int \<Rightarrow> string \<Rightarrow> (int \<times> (string \<times> nat) list) list
    \<Rightarrow> (int \<times> (string \<times> nat) list) list" where
  "feat_add i v [] = [(i, [(v, 1)])]"
| "feat_add i v ((k, cnt) # rest) =
     (if k = i then (k, counter_add v cnt) # rest else (k, cnt) # feat_add i v rest)"

text \<open>
  \<^verbatim>\<open>
  for line in f:
      instance = {}
      values = line.rstrip('\n').split('\t')
      if len(values) != self.NUM_FEATS + 1:
          continue
      label = np.float32([0, 0])
      label[int(values[0])] = 1
      instance['y'] = [np.float32(values[0])]
      for i in range(1, self.NUM_FEATS + 1):
          feat_cnts[i][values[i ]] += 1
          instance.setdefault('x',[]).append(values[i ])
      self.data[self.count] = instance
      self.count = self.count + 1
  \<close>
  The state of the loop is \<open>count\<close>, \<open>data\<close> and \<open>feat_cnts\<close>. The built-in
  conversions are parameters: \<open>to_int\<close> is \<open>int\<close> and \<open>to_float32\<close> is
  \<open>np.float32\<close> on a string, \<open>None\<close> where they raise \<open>ValueError\<close>. Storing
  into the two-element array \<open>label\<close> raises \<open>IndexError\<close> unless the index is
  between -2 and 1.
\<close>

type_synonym 'f ctr_state = "int \<times> (int \<rightharpoonup> 'f ctr_instance) \<times> (int \<times> (string \<times> nat) list) list"

definition read_line :: "(string \<Rightarrow> int option) \<Rightarrow> (string \<Rightarrow> 'f option) \<Rightarrow> nat \<Rightarrow> string
    \<Rightarrow> 'f ctr_state \<Rightarrow> py_error + 'f ctr_state" where
  "read_line to_int to_float32 n line st =
     (case st of (cnt, dat, feat_cnts) \<Rightarrow>
      let values = line_values line in
      if length values \<noteq> n + 1 then Inr st
      else (case to_int (values ! 0) of
              None \<Rightarrow> Inl ValueError
            | Some k \<Rightarrow>
                if \<not> (- 2 \<le> k \<and> k < 2) then Inl IndexError
                else (case to_float32 (values ! 0) of
                        None \<Rightarrow> Inl ValueError
                      | Some f \<Rightarrow>
                          Inr (cnt + 1,
                               dat(cnt \<mapsto> \<lparr> inst_y = [f],
                                             inst_x = (if n = 0 then None
                                                       else Some (map (\<lambda>i. values ! i) [1..<n + 1])) \<rparr>),
                               fold (\<lambda>i. feat_add (int i) (values ! i)) [1..<n + 1] feat_cnts))))"

fun read_lines :: "(string \<Rightarrow> int option) \<Rightarrow> (string \<Rightarrow> 'f option) \<Rightarrow> nat \<Rightarrow> string list
    \<Rightarrow> 'f ctr_state \<Rightarrow> py_error + 'f ctr_state" where
  "read_lines to_int to_float32 n [] st = Inr st"
| "read_lines to_int to_float32 n (line # rest) st =
     (case read_line to_int to_float32 n line st of
        Inl e \<Rightarrow> Inl e
      | Inr st' \<Rightarrow> read_lines to_int to_float32 n rest st')"

text \<open>
  \<open>xs[i] = v\<close> on an array: a negative index counts from the end, an index out of
  range raises \<open>IndexError\<close>.
\<close>

definition array_set :: "'a list \<Rightarrow> int \<Rightarrow> 'a \<Rightarrow> py_error + 'a list" where
  "array_set xs i v =
     (if 0 \<le> i \<and> i < int (length xs) then Inr (xs[nat i := v])
      else if i < 0 \<and> - int (length xs) \<le> i then Inr (xs[nat (int (length xs) + i) := v])
      else Inl IndexError)"

text \<open>
  \<^verbatim>\<open>
  for i, fm in self.feat_mapper.items():
      self.field_dims[i - 1] = len(fm) + 1
  \<close>
\<close>

fun set_field_dims :: "(int \<times> (string \<times> int) list) list \<Rightarrow> int list \<Rightarrow> py_error + int list" where
  "set_field_dims [] dims = Inr dims"
| "set_field_dims ((i, fm) # rest) dims =
     (case array_set dims (i - 1) (int (length fm) + 1) of
        Inl e \<Rightarrow> Inl e
      | Inr dims' \<Rightarrow> set_field_dims rest dims')"

text \<open>
\<open>np.cumsum\<close>.
\<close>

fun cumsum_from :: "int \<Rightarrow> int list \<Rightarrow> int list" where
  "cumsum_from acc [] = []"
| "cumsum_from acc (x # xs) = (acc + x) # cumsum_from (acc + x) xs"

definition cumsum :: "int list \<Rightarrow> int list" where
  "cumsum xs = cumsum_from 0 xs"

text \<open>
  \<^verbatim>\<open>
  def __init__(self, data_path, feat_mapper=None, defaults=None,
               min_threshold=4, num_feat=34):
      self.NUM_FEATS, self.count, self.data = num_feat, 0, {}
      feat_cnts = defaultdict(lambda: defaultdict(int))
      self.feat_mapper, self.defaults = feat_mapper, defaults
      self.field_dims = np.zeros(self.NUM_FEATS, dtype=np.int64)
      with open(data_path) as f:
          for line in f: ...
      if self.feat_mapper is None and self.defaults is None:
          feat_mapper = {i: {feat for feat, c in cnt.items() if c >=
                             min_threshold} for i, cnt in feat_cnts.items()}
          self.feat_mapper = {i: {feat: idx for idx, feat in enumerate(cnt)}
                              for i, cnt in feat_mapper.items()}
          self.defaults = {i: len(cnt) for i, cnt in feat_mapper.items()}
      for i, fm in self.feat_mapper.items():
          self.field_dims[i - 1] = len(fm) + 1
      self.offsets = np.array((0, *np.cumsum(self.field_dims).asnumpy()
                               [:-1]))
  \<close>
  The features kept for a field form a Python set, whose iteration order the language
  leaves open: \<open>set_iter\<close> gives the order in which a set of the listed elements is
  enumerated. Without a mapper, \<open>self.feat_mapper.items()\<close> raises
  \<open>AttributeError\<close>.
\<close>

definition CTRDataset_init :: "(string list \<Rightarrow> string list) \<Rightarrow> (string \<Rightarrow> int option)
    \<Rightarrow> (string \<Rightarrow> 'f option) \<Rightarrow> string list
    \<Rightarrow> (int \<times> (string \<times> int) list) list option \<Rightarrow> (int \<times> int) list option
    \<Rightarrow> int \<Rightarrow> nat \<Rightarrow> py_error + 'f CTRDataset" where
  "CTRDataset_init set_iter to_int to_float32 lines feat_mapper0 defaults0 min_threshold num_feat =
     (case read_lines to_int to_float32 num_feat lines (0, Map.empty, []) of
        Inl e \<Rightarrow> Inl e
      | Inr (cnt, dat, feat_cnts) \<Rightarrow>
          let sets = map (\<lambda>(i, c). (i, set_iter (map fst (filter (\<lambda>(feat, k). min_threshold \<le> int k) c))))
                       feat_cnts;
              (fm, df) =
                (if feat_mapper0 = None \<and> defaults0 = None
                 then (Some (map (\<lambda>(i, s). (i, zip s (map int [0..<length s]))) sets),
                       Some (map (\<lambda>(i, s). (i, int (length s))) sets))
                 else (feat_mapper0, defaults0))
          in (case fm of
                None \<Rightarrow> Inl AttributeError
              | Some m \<Rightarrow>
                  (case set_field_dims m (replicate num_feat 0) of
                     Inl e \<Rightarrow> Inl e
                   | Inr dims \<Rightarrow>
                       Inr \<lparr> NUM_FEATS = num_feat, count_ds = cnt, data = dat,
                             feat_mapper = fm, defaults = df, field_dims = dims,
                             offsets = 0 # butlast (cumsum dims) \<rparr>)))"

text \<open>
  \<^verbatim>\<open>
  def __len__(self):
      return self.count
  def __getitem__(self, idx):
      feat = np.array([self.feat_mapper[i + 1].get(v, self.defaults[i + 1])
                       for i, v in enumerate(self.data[idx]['x'])])
      return feat + self.offsets, self.data[idx]['y']
  \<close>
  A missing key raises \<open>KeyError\<close>, subscripting \<open>None\<close> raises \<open>TypeError\<close>;
  \<open>feat\<close> and \<open>offsets\<close> are added entry by entry.
\<close>

definition CTRDataset_len :: "'f CTRDataset \<Rightarrow> int" where
  "CTRDataset_len ds = count_ds ds"

fun lookup_feats :: "(int \<times> (string \<times> int) list) list option \<Rightarrow> (int \<times> int) list option
    \<Rightarrow> int \<Rightarrow> string list \<Rightarrow> py_error + int list" where
  "lookup_feats fm df i [] = Inr []"
| "lookup_feats fm df i (v # vs) =
     (case fm of
        None \<Rightarrow> Inl TypeError
      | Some m \<Rightarrow>
          (case map_of m (i + 1) of
             None \<Rightarrow> Inl KeyError
           | Some fmi \<Rightarrow>
               (case df of
                  None \<Rightarrow> Inl TypeError
                | Some d \<Rightarrow>
                    (case map_of d (i + 1) of
                       None \<Rightarrow> Inl KeyError
                     | Some dflt \<Rightarrow>
                         (case lookup_feats fm df (i + 1) vs of
                            Inl e \<Rightarrow> Inl e
                          | Inr feats \<Rightarrow>
                              Inr ((case map_of fmi v of None \<Rightarrow> dflt | Some k \<Rightarrow> k) # feats))))))"

definition CTRDataset_getitem :: "'f CTRDataset \<Rightarrow> int \<Rightarrow> py_error + (int list \<times> 'f list)" where
  "CTRDataset_getitem ds idx =
     (case data ds idx of
        None \<Rightarrow> Inl KeyError
      | Some inst \<Rightarrow>
          (case inst_x inst of
             None \<Rightarrow> Inl KeyError
           | Some xs \<Rightarrow>
               (case lookup_feats (feat_mapper ds) (defaults ds) 0 xs of
                  Inl e \<Rightarrow> Inl e
                | Inr feat \<Rightarrow>
                    if length feat = length (offsets ds)
                    then Inr (map2 (+) feat (offsets ds), inst_y inst)
                    else Inl ValueError)))"

text \<open>
  Conversions for concrete files: \<open>int\<close> on an optional sign and decimal digits, and
  \<open>np.float32\<close> on the same strings, where its value is that integer.
\<close>

fun digit_value :: "char \<Rightarrow> nat option" where
  "digit_value c = (if CHR ''0'' \<le> c \<and> c \<le> CHR ''9'' then Some (of_char c - 48) else None)"

fun digits_value :: "nat \<Rightarrow> string \<Rightarrow> nat option" where
  "digits_value acc [] = Some acc"
| "digits_value acc (c # cs) =
     (case digit_value c of None \<Rightarrow> None | Some d \<Rightarrow> digits_value (10 * acc + d) cs)"

definition py_int :: "string \<Rightarrow> int option" where
  "py_int s =
     (case s of
        [] \<Rightarrow> None
      | c # cs \<Rightarrow>
          if c = CHR ''-'' then (if cs = [] then None else map_option (\<lambda>n. - int n) (digits_value 0 cs))
          else if c = CHR ''+'' then (if cs = [] then None else map_option int (digits_value 0 cs))
          else map_option int (digits_value 0 s))"

definition py_float32 :: "string \<Rightarrow> rat option" where
  "py_float32 s = map_option of_int (py_int s)"

text \<open>
  Notions for the statements below. A line is well formed when it has
  \<open>NUM_FEATS + 1\<close> values; its label is accepted when \<open>int\<close> gives an index of the
  two-element array and \<open>np.float32\<close> converts it.
\<close>

definition well_formed :: "nat \<Rightarrow> string \<Rightarrow> bool" where
  "well_formed n line \<longleftrightarrow> length (line_values line) = n + 1"

definition label_ok :: "(string \<Rightarrow> int option) \<Rightarrow> (string \<Rightarrow> 'f option) \<Rightarrow> string \<Rightarrow> bool" where
  "label_ok to_int to_float32 line \<longleftrightarrow>
     (case to_int (line_values line ! 0) of None \<Rightarrow> False | Some k \<Rightarrow> - 2 \<le> k \<and> k < 2)
     \<and> to_float32 (line_values line ! 0) \<noteq> None"

text \<open>
  Modelled from the spec: the glossary's click-through rate, "the ratio of clicks to
  impressions". No function of the notebook computes it. A record of the dataset is one
  impression, and its clicks are its first column: 1 when the advertisement was
  clicked, 0 when it was not.
\<close>

definition click_through_rate :: "nat \<Rightarrow> nat \<Rightarrow> rat" where
  "click_through_rate clicks impressions = of_nat clicks / of_nat impressions"

text \<open>
  Lines of 35 tab-separated values for concrete files: a clicked record, a record
  that was not clicked, and a line whose first value is no number.
\<close>

definition click_line :: string where
  "click_line = ''1'' @ concat (replicate 34 [CHR 0x09, CHR ''a'']) @ [CHR 0x0A]"

definition no_click_line :: string where
  "no_click_line = ''0'' @ concat (replicate 34 [CHR 0x09, CHR ''b'']) @ [CHR 0x0A]"

definition bad_label_line :: string where
  "bad_label_line = ''x'' @ concat (replicate 34 [CHR 0x09, CHR ''a'']) @ [CHR 0x0A]"

section \<open>Imperative and symbolic programming\<close>

text \<open>
  \<^verbatim>\<open>
  def add(a, b):
      return a + b

  def fancy_func(a, b, c, d):
      e = add(a, b)
      f = add(c, d)
      g = add(e, f)
      return g
  \<close>
  on any type of numbers with \<open>+\<close>.
\<close>

definition add :: "'a::plus \<Rightarrow> 'a \<Rightarrow> 'a" where
  "add a b = a + b"

definition fancy_func :: "'a::plus \<Rightarrow> 'a \<Rightarrow> 'a \<Rightarrow> 'a \<Rightarrow> 'a" where
  "fancy_func a b c d = (let e = add a b; f = add c d; g = add e f in g)"

text \<open>
  The program text. \<open>add_()\<close>, \<open>fancy_func_()\<close> and \<open>evoke_()\<close> return strings;
  they are \<open>add_prog\<close>, \<open>fancy_func_prog\<close> and \<open>evoke_prog\<close> here, a name cannot
  end with an underscore. Each triple-quoted string starts with a newline and ends
  with one.
  \<^verbatim>\<open>
  def evoke_():
      return add_() + fancy_func_() + 'print(fancy_func(1, 2, 3, 4))'
  \<close>
\<close>

definition text_lines :: "string list \<Rightarrow> string" where
  "text_lines ls = concat (map (\<lambda>l. l @ [CHR 0x0A]) ls)"

definition add_prog :: string where
  "add_prog = CHR 0x0A # text_lines [''def add(a, b):'', ''    return a + b'']"

definition fancy_func_prog :: string where
  "fancy_func_prog = CHR 0x0A # text_lines
     [''def fancy_func(a, b, c, d):'',
      ''    e = add(a, b)'',
      ''    f = add(c, d)'',
      ''    g = add(e, f)'',
      ''    return g'']"

definition evoke_prog :: string where
  "evoke_prog = add_prog @ fancy_func_prog @ ''print(fancy_func(1, 2, 3, 4))''"

text \<open>
  \<open>compile(prog, '', 'exec')\<close> and \<open>exec(y)\<close> are Python's compiler and
  interpreter. They are modelled for the programs made of what this text is made of:
  at the top level function definitions and \<open>print\<close> of an expression; in a function
  body assignments to a name and a final \<open>return\<close>; expressions of integer literals,
  names, sums and calls of defined functions. Any other text is a \<open>SyntaxError\<close>.
  Values are Python integers.
\<close>

datatype expr = Num int | Name string | Add expr expr | Call string "expr list"

datatype stmt = Assign string expr | Return expr | Print expr | Def string "string list" "stmt list"

datatype token = NAME string | NUMBER nat | OP char

text \<open>
  Tokens of one line: names and numbers are maximal words of letters, digits and
  underscores; blanks separate; the other characters of the language are
  \<open>( ) , : = +\<close>.
\<close>

definition is_digit :: "char \<Rightarrow> bool" where
  "is_digit c \<longleftrightarrow> CHR ''0'' \<le> c \<and> c \<le> CHR ''9''"

definition is_name_char :: "char \<Rightarrow> bool" where
  "is_name_char c \<longleftrightarrow> (CHR ''a'' \<le> c \<and> c \<le> CHR ''z'') \<or> (CHR ''A'' \<le> c \<and> c \<le> CHR ''Z'')
     \<or> c = CHR ''_'' \<or> is_digit c"

definition word_token :: "string \<Rightarrow> token option" where
  "word_token w =
     (if list_all is_digit w then Some (NUMBER (foldl (\<lambda>n c. 10 * n + (of_char c - 48)) 0 w))
      else if is_digit (hd w) then None
      else Some (NAME w))"

fun lex :: "string \<Rightarrow> string \<Rightarrow> token list option" where
  "lex w [] = (if w = [] then Some [] else map_option (\<lambda>t. [t]) (word_token w))"
| "lex w (c # cs) =
     (if is_name_char c then lex (w @ [c]) cs
      else (case (if w = [] then Some [] else map_option (\<lambda>t. [t]) (word_token w)) of
              None \<Rightarrow> None
            | Some ts \<Rightarrow>
                if c = CHR '' '' then map_option ((@) ts) (lex [] cs)
                else if c \<in> set ''(),:=+'' then map_option (\<lambda>r. ts @ OP c # r) (lex [] cs)
                else None))"

text \<open>
  Expressions by recursive descent; the first argument bounds the depth of the
  descent. A sum associates to the left.
\<close>

function parse_expr :: "nat \<Rightarrow> token list \<Rightarrow> (expr \<times> token list) option"
  and parse_sum :: "nat \<Rightarrow> expr \<Rightarrow> token list \<Rightarrow> (expr \<times> token list) option"
  and parse_atom :: "nat \<Rightarrow> token list \<Rightarrow> (expr \<times> token list) option"
  and parse_args :: "nat \<Rightarrow> token list \<Rightarrow> (expr list \<times> token list) option" where
  "parse_expr 0 ts = None"
| "parse_expr (Suc n) ts =
     (case parse_atom n ts of None \<Rightarrow> None | Some (e, rest) \<Rightarrow> parse_sum n e rest)"
| "parse_sum 0 e ts = None"
| "parse_sum (Suc n) e ts =
     (case ts of
        OP c # ts' \<Rightarrow>
          if c = CHR ''+''
          then (case parse_atom n ts' of
                  None \<Rightarrow> None
                | Some (e', rest) \<Rightarrow> parse_sum n (Add e e') rest)
          else Some (e, ts)
      | _ \<Rightarrow> Some (e, ts))"
| "parse_atom 0 ts = None"
| "parse_atom (Suc n) ts =
     (case ts of
        NUMBER k # ts' \<Rightarrow> Some (Num (int k), ts')
      | NAME f # OP c # ts' \<Rightarrow>
          if c = CHR ''(''
          then (case ts' of
                  OP c' # ts'' \<Rightarrow> if c' = CHR '')'' then Some (Call f [], ts'') else None
                | _ \<Rightarrow> map_option (\<lambda>(es, rest). (Call f es, rest)) (parse_args n ts'))
          else Some (Name f, OP c # ts')
      | NAME x # ts' \<Rightarrow> Some (Name x, ts')
      | _ \<Rightarrow> None)"
| "parse_args 0 ts = None"
| "parse_args (Suc n) ts =
     (case parse_expr n ts of
        Some (e, OP c # rest) \<Rightarrow>
          if c = CHR '',''
          then map_option (\<lambda>(es, rest'). (e # es, rest')) (parse_args n rest)
          else if c = CHR '')'' then Some ([e], rest)
          else None
      | _ \<Rightarrow> None)"
  by pat_completeness auto
termination
  by (relation "measure (\<lambda>x. case x of Inl (Inl (n, _)) \<Rightarrow> n | Inl (Inr (n, _)) \<Rightarrow> n
        | Inr (Inl (n, _)) \<Rightarrow> n | Inr (Inr (n, _)) \<Rightarrow> n)") auto

definition parse_expression :: "token list \<Rightarrow> expr option" where
  "parse_expression ts =
     (case parse_expr (2 * length ts + 2) ts of Some (e, []) \<Rightarrow> Some e | _ \<Rightarrow> None)"

text \<open>
  Statements. A definition header is \<open>def f(p, ...):\<close>; a simple statement is a
  \<open>return\<close>, a \<open>print\<close> call or an assignment.
\<close>

fun parse_params :: "token list \<Rightarrow> string list option" where
  "parse_params [OP c, OP c'] = (if c = CHR '')'' \<and> c' = CHR '':'' then Some [] else None)"
| "parse_params (NAME p # OP c # ts) =
     (if c = CHR '','' then (case ts of NAME _ # _ \<Rightarrow> map_option ((#) p) (parse_params ts) | _ \<Rightarrow> None)
      else if c = CHR '')'' \<and> ts = [OP (CHR '':'')] then Some [p]
      else None)"
| "parse_params _ = None"

definition reserved_words :: "string list" where
  "reserved_words = [''def'', ''return'', ''print'']"

fun parse_simple :: "token list \<Rightarrow> stmt option" where
  "parse_simple (NAME w # ts) =
     (if w = ''return'' then map_option Return (parse_expression ts)
      else if w = ''print'' then
        (case parse_expression (NAME w # ts) of Some (Call _ [e]) \<Rightarrow> Some (Print e) | _ \<Rightarrow> None)
      else if w = ''def'' then None
      else (case ts of
              OP c # ts' \<Rightarrow> if c = CHR ''='' then map_option (Assign w) (parse_expression ts') else None
            | _ \<Rightarrow> None))"
| "parse_simple _ = None"

definition parse_header :: "token list \<Rightarrow> (string \<times> string list) option" where
  "parse_header ts =
     (case ts of
        NAME w # NAME f # OP c # ps \<Rightarrow>
          if w = ''def'' \<and> c = CHR ''('' \<and> f \<notin> set reserved_words
          then map_option (Pair f) (parse_params ps) else None
      | _ \<Rightarrow> None)"

text \<open>
  Lines are read one after the other. The state holds the statements that are
  complete and the function definition that is open: its name, its parameters and,
  once its body has begun, the indentation of the body and the body so far. A line
  that is not indented closes the open definition; the lines of a body share one
  indentation; a definition needs a body.
\<close>

type_synonym parse_state = "stmt list \<times> (string \<times> string list \<times> (nat \<times> stmt list) option) option"

definition close_def :: "parse_state \<Rightarrow> stmt list option" where
  "close_def st =
     (case st of
        (done, None) \<Rightarrow> Some done
      | (done, Some (f, ps, None)) \<Rightarrow> None
      | (done, Some (f, ps, Some (ind, body))) \<Rightarrow> Some (done @ [Def f ps body]))"

definition parse_line :: "string \<Rightarrow> parse_state \<Rightarrow> parse_state option" where
  "parse_line line st =
     (let ind = length (takeWhile (\<lambda>c. c = CHR '' '') line) in
      case lex [] line of
        None \<Rightarrow> None
      | Some [] \<Rightarrow> Some st
      | Some ts \<Rightarrow>
          if ind = 0 then
            (case close_def st of
               None \<Rightarrow> None
             | Some done \<Rightarrow>
                 (case parse_header ts of
                    Some (f, ps) \<Rightarrow> Some (done, Some (f, ps, None))
                  | None \<Rightarrow> map_option (\<lambda>s. (done @ [s], None)) (parse_simple ts)))
          else
            (case st of
               (done, Some (f, ps, None)) \<Rightarrow>
                 map_option (\<lambda>s. (done, Some (f, ps, Some (ind, [s])))) (parse_simple ts)
             | (done, Some (f, ps, Some (ind', body))) \<Rightarrow>
                 if ind = ind'
                 then map_option (\<lambda>s. (done, Some (f, ps, Some (ind', body @ [s])))) (parse_simple ts)
                 else None
             | _ \<Rightarrow> None))"

fun parse_lines :: "string list \<Rightarrow> parse_state \<Rightarrow> parse_state option" where
  "parse_lines [] st = Some st"
| "parse_lines (l # ls) st = (case parse_line l st of None \<Rightarrow> None | Some st' \<Rightarrow> parse_lines ls st')"

definition compile :: "string \<Rightarrow> py_error + stmt list" where
  "compile prog =
     (case parse_lines (str_split (CHR 0x0A) prog) ([], None) of
        None \<Rightarrow> Inl SyntaxError
      | Some st \<Rightarrow> (case close_def st of None \<Rightarrow> Inl SyntaxError | Some p \<Rightarrow> Inr p))"

text \<open>
  Evaluation. \<open>fs\<close> holds the functions defined so far, the latest first; \<open>env\<close>
  holds the local variables of the running call. The first argument bounds the depth
  of the evaluation: at depth 0 the result is \<open>RecursionError\<close>. An unknown name is a
  \<open>NameError\<close>; a call with the wrong number of arguments, and a body that ends
  without returning an integer, are a \<open>TypeError\<close>.
\<close>

type_synonym fenv = "(string \<times> string list \<times> stmt list) list"

function eval :: "nat \<Rightarrow> fenv \<Rightarrow> (string \<times> int) list \<Rightarrow> expr \<Rightarrow> py_error + int"
  and eval_args :: "nat \<Rightarrow> fenv \<Rightarrow> (string \<times> int) list \<Rightarrow> expr list \<Rightarrow> py_error + int list"
  and exec_body :: "nat \<Rightarrow> fenv \<Rightarrow> (string \<times> int) list \<Rightarrow> stmt list \<Rightarrow> py_error + int" where
  "eval 0 fs env e = Inl RecursionError"
| "eval (Suc n) fs env e =
     (case e of
        Num k \<Rightarrow> Inr k
      | Name x \<Rightarrow> (case map_of env x of None \<Rightarrow> Inl NameError | Some v \<Rightarrow> Inr v)
      | Add a b \<Rightarrow>
          (case eval n fs env a of
             Inl err \<Rightarrow> Inl err
           | Inr x \<Rightarrow> (case eval n fs env b of Inl err \<Rightarrow> Inl err | Inr y \<Rightarrow> Inr (x + y)))
      | Call f args \<Rightarrow>
          (case map_of fs f of
             None \<Rightarrow> Inl NameError
           | Some (ps, body) \<Rightarrow>
               (case eval_args n fs env args of
                  Inl err \<Rightarrow> Inl err
                | Inr vs \<Rightarrow>
                    if length vs \<noteq> length ps then Inl TypeError
                    else exec_body n fs (zip ps vs) body)))"
| "eval_args 0 fs env es = Inl RecursionError"
| "eval_args (Suc n) fs env es =
     (case es of
        [] \<Rightarrow> Inr []
      | e # es' \<Rightarrow>
          (case eval n fs env e of
             Inl err \<Rightarrow> Inl err
           | Inr v \<Rightarrow> (case eval_args n fs env es' of Inl err \<Rightarrow> Inl err | Inr vs \<Rightarrow> Inr (v # vs))))"
| "exec_body 0 fs env ss = Inl RecursionError"
| "exec_body (Suc n) fs env ss =
     (case ss of
        Assign x e # rest \<Rightarrow>
          (case eval n fs env e of Inl err \<Rightarrow> Inl err | Inr v \<Rightarrow> exec_body n fs ((x, v) # env) rest)
      | Return e # rest \<Rightarrow> eval n fs env e
      | _ \<Rightarrow> Inl TypeError)"
  by pat_completeness auto
termination
  by (relation "measure (\<lambda>x. case x of Inl (n, _) \<Rightarrow> n | Inr (Inl (n, _)) \<Rightarrow> n
        | Inr (Inr (n, _)) \<Rightarrow> n)") auto

text \<open>
  \<open>str\<close> of an integer, which \<open>print\<close> writes.
\<close>

function digits :: "nat \<Rightarrow> string" where
  "digits n = (if n < 10 then [char_of (48 + n)] else digits (n div 10) @ [char_of (48 + n mod 10)])"
  by pat_completeness auto
termination
  by (relation "measure id") auto

definition py_str :: "int \<Rightarrow> string" where
  "py_str i = (if i < 0 then CHR ''-'' # digits (nat (- i)) else digits (nat i))"

text \<open>
  The top level: a definition binds its name, \<open>print\<close> appends a line to the
  output. \<open>run\<close> compiles and executes a program text and gives the lines printed.
\<close>

fun exec :: "nat \<Rightarrow> stmt list \<Rightarrow> fenv \<times> string list \<Rightarrow> py_error + fenv \<times> string list" where
  "exec n [] st = Inr st"
| "exec n (s # ss) st =
     (case s of
        Def f ps body \<Rightarrow> exec n ss ((f, ps, body) # fst st, snd st)
      | Print e \<Rightarrow>
          (case eval n (fst st) [] e of
             Inl err \<Rightarrow> Inl err
           | Inr v \<Rightarrow> exec n ss (fst st, snd st @ [py_str v]))
      | _ \<Rightarrow> Inl SyntaxError)"

definition run :: "nat \<Rightarrow> string \<Rightarrow> py_error + string list" where
  "run n prog =
     (case compile prog of
        Inl err \<Rightarrow> Inl err
      | Inr p \<Rightarrow> (case exec n p ([], []) of Inl err \<Rightarrow> Inl err | Inr (fs, out) \<Rightarrow> Inr out))"

section \<open>The dependency manifest\<close>

text \<open>
  \<open>01.PyTorch-tutorials/requirements.txt\<close>, lines 1 to 29, one string per line.
\<close>

definition requirements_txt :: "string list" where
  "requirements_txt =
     [''# Refer to ./jenkins/build.sh for tutorial build instructions'',
      '''',
      ''sphinx'',
      ''sphinx-gallery==0.3.1'',
      ''tqdm'',
      ''numpy'',
      ''matplotlib'',
      ''torch'',
      ''torchvision'',
      ''torchtext'',
      ''torchaudio'',
      ''PyHamcrest'',
      ''bs4'',
      ''awscli==1.16.35'',
      ''flask'',
      ''spacy'',
      '''',
      ''# PyTorch Theme'',
      ''-e git+git://github.com/pytorch/pytorch_sphinx_theme.git#egg=pytorch_sphinx_theme'',
      '''',
      ''ipython'',
      '''',
      ''# to run examples'',
      ''pandas'',
      ''scikit-image'',
      ''# pillow >= 4.2 will throw error when trying to write mode RGBA as JPEG,'',
      ''# this is a workaround to the issue.'',
      ''pillow==6.2.0'',
      ''wget'']"

text \<open>
  A requirement entry is a line that is neither empty nor a comment. An entry pins its
  package when it has the form \<open>name==version\<close>: \<open>pinned\<close> splits it at the first
  \<open>==\<close>.
\<close>

definition is_entry :: "string \<Rightarrow> bool" where
  "is_entry line = (case line of [] \<Rightarrow> False | c # _ \<Rightarrow> c \<noteq> CHR ''#'')"

fun pinned :: "string \<Rightarrow> (string \<times> string) option" where
  "pinned (c # d # cs) =
     (if c = CHR ''='' \<and> d = CHR ''='' then Some ([], cs)
      else map_option (\<lambda>(name, version). (c # name, version)) (pinned (d # cs)))"
| "pinned _ = None"

definition entries :: "string list \<Rightarrow> string list" where
  "entries manifest = filter is_entry manifest"

section \<open>Properties of \<open>tokenize\<close>\<close>

subsection \<open>Splitting\<close>

lemma str_split_not_Nil: "str_split sep s \<noteq> []"
  by (induction s) (auto split: list.splits)

lemma str_split_no_sep: "w \<in> set (str_split sep s) \<Longrightarrow> sep \<notin> set w"
proof (induction s arbitrary: w)
  case Nil
  then show ?case by simp
next
  case (Cons c cs)
  show ?case
  proof (cases "c = sep")
    case True
    with Cons show ?thesis by auto
  next
    case False
    obtain v vs where vs: "str_split sep cs = v # vs"
      using str_split_not_Nil [of sep cs] by (cases "str_split sep cs") auto
    from Cons.prems False vs have "w = c # v \<or> w \<in> set vs" by simp
    then show ?thesis
    proof
      assume "w = c # v"
      moreover have "sep \<notin> set v" using Cons.IH [of v] vs by simp
      ultimately show ?thesis using False by auto
    next
      assume "w \<in> set vs"
      then show ?thesis using Cons.IH [of w] vs by simp
    qed
  qed
qed

lemma str_join_split: "str_join sep (str_split sep s) = s"
proof (induction s)
  case Nil
  show ?case by simp
next
  case (Cons c cs)
  obtain v vs where vs: "str_split sep cs = v # vs"
    using str_split_not_Nil [of sep cs] by (cases "str_split sep cs") auto
  show ?case
  proof (cases "c = sep")
    case True
    with Cons vs show ?thesis by simp
  next
    case False
    have "str_join sep ((c # v) # vs) = c # str_join sep (v # vs)"
      by (cases vs) simp_all
    with Cons vs False show ?thesis by simp
  qed
qed

lemma length_str_split: "length (str_split sep s) = Suc (length (filter (\<lambda>c. c = sep) s))"
proof (induction s)
  case Nil
  show ?case by simp
next
  case (Cons c cs)
  obtain v vs where vs: "str_split sep cs = v # vs"
    using str_split_not_Nil [of sep cs] by (cases "str_split sep cs") auto
  with Cons show ?case by auto
qed

text \<open>The output the notebook records for the first two lines of its corpus.\<close>

lemma tokenize_notebook_output:
  "tokenize [''the time machine by h g wells '', ''''] ''word''
     = ([], Some [[''the'', ''time'', ''machine'', ''by'', ''h'', ''g'', ''wells'', ''''], ['''']])"
  by (simp add: tokenize_def)

text \<open>
  C4. With a mode other than \<open>word\<close> and \<open>char\<close>, \<open>tokenize\<close> prints
  \<open>ERROR: unkown token type\<close> followed by the mode and returns \<open>None\<close>. With
  \<open>word\<close> it prints nothing and returns one list per line, the line split at every
  space: the pieces hold no space and joined by spaces give the line back. With
  \<open>char\<close> it prints nothing and returns one list per line, the line's characters as
  one-character strings.
\<close>

theorem tokenize_modes:
  "(token \<noteq> ''word'' \<and> token \<noteq> ''char'' \<longrightarrow>
      tokenize lines token = ([''ERROR: unkown token type '' @ token], None))
   \<and> (\<exists>ws. tokenize lines ''word'' = ([], Some ws) \<and> length ws = length lines
         \<and> (\<forall>i < length lines. ws ! i = str_split CHR '' '' (lines ! i)
               \<and> str_join CHR '' '' (ws ! i) = lines ! i
               \<and> (\<forall>w \<in> set (ws ! i). CHR '' '' \<notin> set w)))
   \<and> (\<exists>cs. tokenize lines ''char'' = ([], Some cs) \<and> length cs = length lines
         \<and> (\<forall>i < length lines. cs ! i = map (\<lambda>c. [c]) (lines ! i)
               \<and> concat (cs ! i) = lines ! i))"
proof (intro conjI)
  show "token \<noteq> ''word'' \<and> token \<noteq> ''char'' \<longrightarrow>
      tokenize lines token = ([''ERROR: unkown token type '' @ token], None)"
    by (simp add: tokenize_def)
next
  have "tokenize lines ''word'' = ([], Some (map (str_split CHR '' '') lines))"
    by (simp add: tokenize_def)
  moreover have "\<forall>i < length lines.
      map (str_split CHR '' '') lines ! i = str_split CHR '' '' (lines ! i)
      \<and> str_join CHR '' '' (map (str_split CHR '' '') lines ! i) = lines ! i
      \<and> (\<forall>w \<in> set (map (str_split CHR '' '') lines ! i). CHR '' '' \<notin> set w)"
    using str_split_no_sep by (simp add: str_join_split)
  ultimately show "\<exists>ws. tokenize lines ''word'' = ([], Some ws) \<and> length ws = length lines
         \<and> (\<forall>i < length lines. ws ! i = str_split CHR '' '' (lines ! i)
               \<and> str_join CHR '' '' (ws ! i) = lines ! i
               \<and> (\<forall>w \<in> set (ws ! i). CHR '' '' \<notin> set w))"
    by (intro exI [of _ "map (str_split CHR '' '') lines"]) simp
next
  have "concat (map (\<lambda>c. [c]) s) = s" for s :: string
    by (induction s) simp_all
  then show "\<exists>cs. tokenize lines ''char'' = ([], Some cs) \<and> length cs = length lines
         \<and> (\<forall>i < length lines. cs ! i = map (\<lambda>c. [c]) (lines ! i)
               \<and> concat (cs ! i) = lines ! i)"
    by (intro exI [of _ "map (map (\<lambda>c. [c])) lines"]) (simp add: tokenize_def)
qed

theorem tokenize_modes_witness:
  "tokenize [''the time  machine'', ''''] ''sentence''
     = ([''ERROR: unkown token type sentence''], None)
   \<and> tokenize [''the time  machine'', ''''] ''word''
     = ([], Some [[''the'', ''time'', '''', ''machine''], ['''']])
   \<and> tokenize [''by h''] ''char'' = ([], Some [[''b'', ''y'', '' '', ''h'']])"
  using tokenize_modes [of "''sentence''" "[''the time  machine'', '''']"]
  by (simp add: tokenize_def)


section \<open>Properties of \<open>Vocab\<close>\<close>

subsection \<open>Counting\<close>

lemma map_fst_counter_add:
  "map fst (counter_add t m) = (if t \<in> fst ` set m then map fst m else map fst m @ [t])"
  by (induction t m rule: counter_add.induct) auto

lemma map_of_counter_add:
  "map_of (counter_add t m) = (map_of m)(t \<mapsto> (case map_of m t of None \<Rightarrow> 1 | Some c \<Rightarrow> Suc c))"
  by (induction t m rule: counter_add.induct) (auto simp: fun_eq_iff)

lemma Counter_snoc: "Counter (ts @ [t]) = counter_add t (Counter ts)"
  by (simp add: Counter_def)

lemma Counter_keys: "distinct (map fst (Counter ts)) \<and> set (map fst (Counter ts)) = set ts"
proof (induction ts rule: rev_induct)
  case Nil
  show ?case by (simp add: Counter_def)
next
  case (snoc t ts)
  then show ?case by (auto simp: Counter_snoc map_fst_counter_add)
qed

lemma map_of_Counter:
  "map_of (Counter ts) t = (if t \<in> set ts then Some (count_list ts t) else None)"
proof (induction ts rule: rev_induct)
  case Nil
  show ?case by (simp add: Counter_def)
next
  case (snoc u ts)
  then show ?case by (auto simp: Counter_snoc map_of_counter_add)
qed

lemma set_Counter: "set (Counter ts) = (\<lambda>t. (t, count_list ts t)) ` set ts"
proof -
  have "(t, c) \<in> set (Counter ts) \<longleftrightarrow> t \<in> set ts \<and> c = count_list ts t" for t c
  proof -
    have "(t, c) \<in> set (Counter ts) \<longleftrightarrow> map_of (Counter ts) t = Some c"
      using Counter_keys [of ts] by (simp add: map_of_eq_Some_iff)
    also have "\<dots> \<longleftrightarrow> t \<in> set ts \<and> c = count_list ts t"
      by (auto simp: map_of_Counter)
    finally show ?thesis .
  qed
  then show ?thesis by auto
qed

lemma insort_freq_order:
  assumes "sorted_wrt freq_order ys" and "\<forall>y \<in> set ys. fst x < fst y"
  shows "sorted_wrt freq_order (insort_key (\<lambda>x. - int (snd x)) x ys)"
  using assms
proof (induction ys)
  case Nil
  show ?case by simp
next
  case (Cons y ys)
  show ?case
  proof (cases "snd y \<le> snd x")
    case True
    have "freq_order x z" if "z \<in> set (y # ys)" for z
    proof -
      have "snd z \<le> snd y" using Cons.prems(1) that by (auto simp: freq_order_def)
      moreover have "fst x < fst z" using Cons.prems(2) that by blast
      ultimately show ?thesis using True by (auto simp: freq_order_def)
    qed
    with True Cons.prems(1) show ?thesis by simp
  next
    case False
    then have "freq_order y x" by (simp add: freq_order_def)
    moreover have "sorted_wrt freq_order (insort_key (\<lambda>x. - int (snd x)) x ys)"
      using Cons by simp
    ultimately show ?thesis using False Cons.prems(1) by (auto simp: set_insort_key)
  qed
qed

lemma sort_key_freq_order:
  "sorted_wrt (\<lambda>x y. fst x < fst y) xs \<Longrightarrow> sorted_wrt freq_order (sort_key (\<lambda>x. - int (snd x)) xs)"
proof (induction xs)
  case Nil
  show ?case by simp
next
  case (Cons x xs)
  then show ?case by (auto intro!: insort_freq_order)
qed

lemma sort_key_fst_strict:
  assumes "distinct (map fst xs)"
  shows "sorted_wrt (\<lambda>x y. fst x < fst y) (sort_key fst xs)"
proof -
  have "mset (map fst (sort_key fst xs)) = mset (map fst xs)" by simp
  then have "distinct (map fst (sort_key fst xs))"
    using assms mset_eq_imp_distinct_iff by blast
  moreover have "sorted (map fst (sort_key fst xs))" by simp
  ultimately have "sorted_wrt (<) (map fst (sort_key fst xs))"
    by (simp add: strict_sorted_iff)
  then show ?thesis by (simp add: sorted_wrt_map)
qed

lemma freq_order_unique:
  assumes "sorted_wrt freq_order xs" and "sorted_wrt freq_order ys" and "set xs = set ys"
  shows "xs = ys"
  using assms
proof (induction xs arbitrary: ys)
  case Nil
  then show ?case by simp
next
  case (Cons x xs)
  from Cons.prems(3) obtain y ys' where ys: "ys = y # ys'" by (cases ys) auto
  have irrefl: "\<not> freq_order z z" for z by (simp add: freq_order_def)
  have asym: "freq_order a b \<Longrightarrow> \<not> freq_order b a" for a b by (auto simp: freq_order_def)
  have xy: "x = y"
  proof (rule ccontr)
    assume ne: "x \<noteq> y"
    then have "x \<in> set ys'" "y \<in> set xs" using Cons.prems(3) ys by auto
    then have "freq_order y x" "freq_order x y" using Cons.prems(1,2) ys by auto
    then show False using asym by blast
  qed
  have "x \<notin> set xs" "y \<notin> set ys'" using Cons.prems(1,2) ys irrefl by fastforce+
  then have "set xs = set ys'" using Cons.prems(3) ys xy by auto
  then have "xs = ys'" using Cons.IH [of ys'] Cons.prems(1,2) ys by simp
  with xy ys show ?case by simp
qed

subsection \<open>Indexing\<close>

lemma index_tokens_inv:
  assumes "distinct (its @ xs)" and "dom tti = set its"
    and "\<forall>i < length its. tti (its ! i) = Some (int i)"
  shows "\<exists>tti'. index_tokens xs (its, tti) = (its @ xs, tti') \<and> dom tti' = set (its @ xs)
           \<and> (\<forall>i < length (its @ xs). tti' ((its @ xs) ! i) = Some (int i))"
  using assms
proof (induction xs arbitrary: its tti)
  case Nil
  then show ?case by simp
next
  case (Cons token rest)
  let ?its = "its @ [token]"
  let ?tti = "tti(token \<mapsto> int (length ?its) - 1)"
  have d: "distinct (?its @ rest)" using Cons.prems(1) by simp
  have dm: "dom ?tti = set ?its" using Cons.prems(2) by auto
  have ix: "\<forall>i < length ?its. ?tti (?its ! i) = Some (int i)"
  proof (intro allI impI)
    fix i assume i: "i < length ?its"
    show "?tti (?its ! i) = Some (int i)"
    proof (cases "i < length its")
      case True
      then have "its ! i \<in> set its" by simp
      then have "its ! i \<noteq> token" using Cons.prems(1) by auto
      then show ?thesis using True Cons.prems(3) by (simp add: nth_append)
    next
      case False
      then have "i = length its" using i by simp
      then show ?thesis by simp
    qed
  qed
  have step: "index_tokens (token # rest) (its, tti) = index_tokens rest (?its, ?tti)"
    by (simp add: Let_def)
  have app: "?its @ rest = its @ token # rest" by simp
  show ?case using Cons.IH [OF d dm ix] unfolding step app .
qed

lemma comprehension_filter:
  "concat (map (\<lambda>(token, freq). if P token freq then [token] else []) xs)
     = map fst (filter (\<lambda>x. P (fst x) (snd x)) xs)"
  by (induction xs) auto

lemma token_freqs_Vocab_init:
  "token_freqs (Vocab_init c mf sp) = sort_key (\<lambda>x. - int (snd x)) (sort_key fst (count_corpus c))"
  by (simp add: Vocab_init_def Let_def split: prod.splits)

lemma set_token_freqs:
  "set (token_freqs (Vocab_init c mf sp)) = (\<lambda>t. (t, count_list (concat c) t)) ` set (concat c)"
  by (simp add: token_freqs_Vocab_init count_corpus_def set_Counter)

lemma sorted_token_freqs: "sorted_wrt freq_order (token_freqs (Vocab_init c mf sp))"
  unfolding token_freqs_Vocab_init count_corpus_def
  by (intro sort_key_freq_order sort_key_fst_strict) (simp add: Counter_keys)

lemma distinct_token_freqs: "distinct (map fst (token_freqs (Vocab_init c mf sp)))"
proof -
  have "mset (map fst (token_freqs (Vocab_init c mf sp))) = mset (map fst (count_corpus c))"
    by (simp add: token_freqs_Vocab_init)
  then show ?thesis
    using Counter_keys [of "concat c"] mset_eq_imp_distinct_iff
    unfolding count_corpus_def by blast
qed

lemma distinct_special_tokens: "distinct (special_tokens sp)"
  by (simp add: special_tokens_def)

lemma distinct_vocab_tokens: "distinct (vocab_tokens c mf sp)"
  unfolding vocab_tokens_def
  using distinct_token_freqs [of c mf sp]
  by (simp add: token_freqs_Vocab_init distinct_map_filter)

lemma set_vocab_tokens:
  "set (vocab_tokens c mf sp) = {t \<in> set (concat c). mf \<le> int (count_list (concat c) t) \<and> t \<notin> set (special_tokens sp)}"
  unfolding vocab_tokens_def
  using set_token_freqs [of c mf sp]
  by (auto simp: token_freqs_Vocab_init image_iff)

lemma Vocab_init_index:
  "\<exists>tti. Vocab_init c mf sp =
      \<lparr> token_freqs = sort_key (\<lambda>x. - int (snd x)) (sort_key fst (count_corpus c)),
        pad = (if sp then Some 0 else None),
        bos = (if sp then Some 1 else None),
        eos = (if sp then Some 2 else None),
        unk = (if sp then 3 else 0),
        idx_to_token = special_tokens sp @ vocab_tokens c mf sp,
        token_to_idx = tti \<rparr>
    \<and> dom tti = set (special_tokens sp @ vocab_tokens c mf sp)
    \<and> (\<forall>i < length (special_tokens sp @ vocab_tokens c mf sp).
          tti ((special_tokens sp @ vocab_tokens c mf sp) ! i) = Some (int i))"
proof -
  let ?u = "special_tokens sp @ vocab_tokens c mf sp"
  have "distinct ?u"
    using distinct_special_tokens distinct_vocab_tokens set_vocab_tokens [of c mf sp] by auto
  then have "distinct ([] @ ?u)" by simp
  from index_tokens_inv [OF this, of Map.empty]
  obtain tti where t: "index_tokens ?u ([], Map.empty) = (?u, tti)" "dom tti = set ?u"
    "\<forall>i < length ?u. tti (?u ! i) = Some (int i)" by auto
  have u: "special_tokens sp @ concat (map (\<lambda>(token, freq).
        if mf \<le> int freq \<and> token \<notin> set (special_tokens sp) then [token] else [])
        (sort_key (\<lambda>x. - int (snd x)) (sort_key fst (count_corpus c)))) = ?u"
    by (simp add: comprehension_filter vocab_tokens_def)
  show ?thesis
    using t by (intro exI [of _ tti]) (simp add: Vocab_init_def Let_def u)
qed

lemma Vocab_fields:
  "idx_to_token (Vocab_init c mf sp) = special_tokens sp @ vocab_tokens c mf sp"
  "unk (Vocab_init c mf sp) = (if sp then 3 else 0)"
  using Vocab_init_index [of c mf sp] by auto

lemma Vocab_dom:
  "dom (token_to_idx (Vocab_init c mf sp)) = set (idx_to_token (Vocab_init c mf sp))"
proof -
  from Vocab_init_index [of c mf sp] obtain tti where
    "token_to_idx (Vocab_init c mf sp) = tti"
    "idx_to_token (Vocab_init c mf sp) = special_tokens sp @ vocab_tokens c mf sp"
    "dom tti = set (special_tokens sp @ vocab_tokens c mf sp)"
    by force
  then show ?thesis by simp
qed

lemma Vocab_nth:
  "i < length (idx_to_token (Vocab_init c mf sp)) \<Longrightarrow>
     token_to_idx (Vocab_init c mf sp) (idx_to_token (Vocab_init c mf sp) ! i) = Some (int i)"
  using Vocab_init_index [of c mf sp] by auto

lemma sorted_vocab_tokens:
  "sorted_wrt (\<lambda>s t. freq_order (s, count_list (concat c) s) (t, count_list (concat c) t))
     (vocab_tokens c mf sp)"
proof -
  let ?fr = "token_freqs (Vocab_init c mf sp)"
  let ?P = "\<lambda>x. mf \<le> int (snd x) \<and> fst x \<notin> set (special_tokens sp)"
  have srt: "sorted_wrt freq_order (filter ?P ?fr)"
    using sorted_token_freqs by (rule sorted_wrt_filter)
  have pr: "(fst x, count_list (concat c) (fst x)) = x" if "x \<in> set (filter ?P ?fr)" for x
    using that set_token_freqs [of c mf sp] by auto
  have "sorted_wrt (\<lambda>x y. freq_order (fst x, count_list (concat c) (fst x))
      (fst y, count_list (concat c) (fst y))) (filter ?P ?fr)"
  proof (rule sorted_wrt_mono_rel [OF _ srt])
    fix x y
    assume "x \<in> set (filter ?P ?fr)" "y \<in> set (filter ?P ?fr)" "freq_order x y"
    then show "freq_order (fst x, count_list (concat c) (fst x))
      (fst y, count_list (concat c) (fst y))"
      by (simp only: pr)
  qed
  then show ?thesis
    by (simp add: vocab_tokens_def sorted_wrt_map token_freqs_Vocab_init)
qed

lemma Vocab_before:
  assumes b: "b \<in> set (concat c)" "b \<notin> set (special_tokens sp)"
      "mf \<le> int (count_list (concat c) b)"
    and a: "a \<in> set (concat c)"
    and ab: "freq_order (a, count_list (concat c) a) (b, count_list (concat c) b)"
  shows "\<exists>i j. token_to_idx (Vocab_init c mf sp) a = Some i
           \<and> token_to_idx (Vocab_init c mf sp) b = Some j \<and> i < j"
proof -
  let ?v = "Vocab_init c mf sp"
  let ?s = "special_tokens sp" and ?ts = "vocab_tokens c mf sp"
  let ?R = "\<lambda>s t. freq_order (s, count_list (concat c) s) (t, count_list (concat c) t)"
  have u: "idx_to_token ?v = ?s @ ?ts" by (rule Vocab_fields)
  from b have "b \<in> set ?ts" by (simp add: set_vocab_tokens)
  then obtain j where j: "j < length ?ts" "?ts ! j = b" by (auto simp: in_set_conv_nth)
  then have jb: "token_to_idx ?v b = Some (int (length ?s + j))"
    using Vocab_nth [of "length ?s + j" c mf sp] by (simp add: u)
  show ?thesis
  proof (cases "a \<in> set ?s")
    case True
    then obtain k where k: "k < length ?s" "?s ! k = a" by (auto simp: in_set_conv_nth)
    then have "token_to_idx ?v a = Some (int k)"
      using Vocab_nth [of k c mf sp] by (simp add: u nth_append)
    with jb k show ?thesis by simp
  next
    case False
    have "count_list (concat c) b \<le> count_list (concat c) a"
      using ab by (auto simp: freq_order_def)
    with b(3) a False have "a \<in> set ?ts" by (simp add: set_vocab_tokens)
    then obtain i where i: "i < length ?ts" "?ts ! i = a" by (auto simp: in_set_conv_nth)
    then have ia: "token_to_idx ?v a = Some (int (length ?s + i))"
      using Vocab_nth [of "length ?s + i" c mf sp] by (simp add: u)
    have "i < j"
    proof (rule ccontr)
      assume "\<not> i < j"
      then consider "i = j" | "j < i" by linarith
      then show False
      proof cases
        case 1
        with i j ab show False by (simp add: freq_order_def)
      next
        case 2
        have "?R (?ts ! j) (?ts ! i)"
          using sorted_wrt_nth_less [OF sorted_vocab_tokens 2 i(1)] .
        then have "?R b a" unfolding i(2) j(2) .
        with ab show False by (auto simp: freq_order_def)
      qed
    qed
    with ia jb show ?thesis by simp
  qed
qed

lemma Vocab_init_mset:
  assumes "mset (concat c) = mset (concat c')"
  shows "Vocab_init c mf sp = Vocab_init c' mf sp"
proof -
  have cnt: "count_list (concat c) t = count_list (concat c') t" for t
    using assms by (metis count_mset)
  have st: "set (concat c) = set (concat c')" using assms by (metis set_mset_mset)
  have "count_list (concat c) = count_list (concat c')" using cnt by blast
  then have "set (token_freqs (Vocab_init c mf sp)) = set (token_freqs (Vocab_init c' mf sp))"
    unfolding set_token_freqs st by simp
  then have "token_freqs (Vocab_init c mf sp) = token_freqs (Vocab_init c' mf sp)"
    by (intro freq_order_unique sorted_token_freqs)
  then have eq: "sort_key (\<lambda>x. - int (snd x)) (sort_key fst (count_corpus c))
      = sort_key (\<lambda>x. - int (snd x)) (sort_key fst (count_corpus c'))"
    by (simp add: token_freqs_Vocab_init)
  show ?thesis unfolding Vocab_init_def Let_def eq ..
qed


subsection \<open>Claims about \<open>Vocab\<close>\<close>

text \<open>
  C1, as the code has it. With \<open>min_freq = 0\<close> and no special tokens, index 0 is
  \<open><unk>\<close>, and for two distinct corpus tokens \<open>a\<close> and \<open>b\<close>, where \<open>b\<close> is not
  \<open><unk>\<close> itself, a strictly greater count of \<open>a\<close> gives \<open>a\<close> the strictly smaller
  index. The token \<open><unk>\<close> keeps index 0 whatever its count in the corpus.
\<close>

theorem Vocab_descending_frequency:
  "py_index (idx_to_token (Vocab_init corpus 0 False)) 0 = Inr ''<unk>''
   \<and> token_to_idx (Vocab_init corpus 0 False) ''<unk>'' = Some 0
   \<and> (\<forall>a b. a \<in> set (concat corpus) \<and> b \<in> set (concat corpus) \<and> a \<noteq> b \<and> b \<noteq> ''<unk>''
          \<and> count_list (concat corpus) b < count_list (concat corpus) a \<longrightarrow>
        (\<exists>i j. token_to_idx (Vocab_init corpus 0 False) a = Some i
              \<and> token_to_idx (Vocab_init corpus 0 False) b = Some j \<and> i < j))"
proof (intro conjI allI impI)
  let ?v = "Vocab_init corpus 0 False"
  have u: "idx_to_token ?v = ''<unk>'' # vocab_tokens corpus 0 False"
    by (simp add: Vocab_fields special_tokens_def)
  then show "py_index (idx_to_token ?v) 0 = Inr ''<unk>''"
    by (simp add: py_index_def)
  show "token_to_idx ?v ''<unk>'' = Some 0"
    using Vocab_nth [of 0 corpus 0 False] u by simp
next
  fix a b
  assume h: "a \<in> set (concat corpus) \<and> b \<in> set (concat corpus) \<and> a \<noteq> b \<and> b \<noteq> ''<unk>''
          \<and> count_list (concat corpus) b < count_list (concat corpus) a"
  then have "freq_order (a, count_list (concat corpus) a) (b, count_list (concat corpus) b)"
    by (simp add: freq_order_def)
  moreover have "b \<notin> set (special_tokens False)" using h by (simp add: special_tokens_def)
  ultimately show "\<exists>i j. token_to_idx (Vocab_init corpus 0 False) a = Some i
              \<and> token_to_idx (Vocab_init corpus 0 False) b = Some j \<and> i < j"
    using h by (intro Vocab_before) simp_all
qed

theorem Vocab_descending_frequency_witness:
  "py_index (idx_to_token (Vocab_init [[''b'', ''a''], [''<unk>'', ''a'']] 0 False)) 0 = Inr ''<unk>''
   \<and> ''a'' \<in> set (concat [[''b'', ''a''], [''<unk>'', ''a'']])
   \<and> ''b'' \<in> set (concat [[''b'', ''a''], [''<unk>'', ''a'']])
   \<and> count_list (concat [[''b'', ''a''], [''<unk>'', ''a'']]) ''b''
       < count_list (concat [[''b'', ''a''], [''<unk>'', ''a'']]) ''a''
   \<and> (\<exists>i j. token_to_idx (Vocab_init [[''b'', ''a''], [''<unk>'', ''a'']] 0 False) ''a'' = Some i
           \<and> token_to_idx (Vocab_init [[''b'', ''a''], [''<unk>'', ''a'']] 0 False) ''b'' = Some j
           \<and> i < j)"
proof -
  let ?c = "[[''b'', ''a''], [''<unk>'', ''a'']]"
  have h: "''a'' \<in> set (concat ?c) \<and> ''b'' \<in> set (concat ?c) \<and> ''a'' \<noteq> ''b''
      \<and> ''b'' \<noteq> ''<unk>'' \<and> count_list (concat ?c) ''b'' < count_list (concat ?c) ''a''"
    by simp
  from Vocab_descending_frequency [of ?c] h show ?thesis by blast
qed

text \<open>
  C1 as stated fails where \<open><unk>\<close> is a corpus token: in the corpus
  \<open>a a <unk>\<close> the token \<open>a\<close> has the greater count and the greater index.
\<close>

theorem Vocab_descending_frequency_counterexample:
  "''a'' \<in> set (concat [[''a'', ''a'', ''<unk>'']])
   \<and> ''<unk>'' \<in> set (concat [[''a'', ''a'', ''<unk>'']])
   \<and> ''a'' \<noteq> ''<unk>''
   \<and> count_list (concat [[''a'', ''a'', ''<unk>'']]) ''a'' = 2
   \<and> count_list (concat [[''a'', ''a'', ''<unk>'']]) ''<unk>'' = 1
   \<and> token_to_idx (Vocab_init [[''a'', ''a'', ''<unk>'']] 0 False) ''a'' = Some 1
   \<and> token_to_idx (Vocab_init [[''a'', ''a'', ''<unk>'']] 0 False) ''<unk>'' = Some 0"
  by code_simp

text \<open>
  C8. For every constructed \<open>Vocab\<close>, whatever \<open>min_freq\<close> and \<open>use_special_tokens\<close>:
  every index \<open>i\<close> with \<open>0 \<le> i < len(vocab)\<close> holds a token that \<open>token_to_idx\<close>
  maps back to \<open>i\<close>; for every token of the vocabulary, \<open>to_tokens\<close> of its index is
  the token; every other token has the index \<open>unk\<close>. The tokens of the vocabulary
  are the entries of \<open>idx_to_token\<close>, which are the keys of \<open>token_to_idx\<close>.
\<close>

theorem Vocab_round_trip:
  "(\<forall>i. 0 \<le> i \<and> i < Vocab_len (Vocab_init c mf sp) \<longrightarrow>
       (\<exists>t. py_index (idx_to_token (Vocab_init c mf sp)) i = Inr t
            \<and> token_to_idx (Vocab_init c mf sp) t = Some i))
   \<and> (\<forall>t \<in> set (idx_to_token (Vocab_init c mf sp)).
         to_tokens (Vocab_init c mf sp) (getitem (Vocab_init c mf sp) (One t)) = Inr (One t))
   \<and> (\<forall>t. t \<notin> set (idx_to_token (Vocab_init c mf sp)) \<longrightarrow>
         getitem (Vocab_init c mf sp) (One t) = One (unk (Vocab_init c mf sp)))
   \<and> dom (token_to_idx (Vocab_init c mf sp)) = set (idx_to_token (Vocab_init c mf sp))"
proof (intro conjI allI impI ballI)
  let ?v = "Vocab_init c mf sp"
  fix i :: int assume "0 \<le> i \<and> i < Vocab_len ?v"
  then have i: "nat i < length (idx_to_token ?v)" "int (nat i) = i" "0 \<le> i"
    by (auto simp: Vocab_len_def)
  have "py_index (idx_to_token ?v) i = Inr (idx_to_token ?v ! nat i)"
    using i by (simp add: py_index_def)
  moreover have "token_to_idx ?v (idx_to_token ?v ! nat i) = Some i"
    using Vocab_nth [OF i(1)] i(2) by simp
  ultimately show "\<exists>t. py_index (idx_to_token ?v) i = Inr t \<and> token_to_idx ?v t = Some i"
    by blast
next
  let ?v = "Vocab_init c mf sp"
  fix t assume "t \<in> set (idx_to_token ?v)"
  then obtain i where i: "i < length (idx_to_token ?v)" "idx_to_token ?v ! i = t"
    by (auto simp: in_set_conv_nth)
  then have "token_to_idx ?v t = Some (int i)" using Vocab_nth [of i c mf sp] by simp
  then have "getitem ?v (One t) = One (int i)" by simp
  moreover have "py_index (idx_to_token ?v) (int i) = Inr t"
    using i by (simp add: py_index_def)
  ultimately show "to_tokens ?v (getitem ?v (One t)) = Inr (One t)" by simp
next
  let ?v = "Vocab_init c mf sp"
  fix t assume "t \<notin> set (idx_to_token ?v)"
  then have "token_to_idx ?v t = None" using Vocab_dom [of c mf sp] by blast
  then show "getitem ?v (One t) = One (unk ?v)" by simp
next
  show "dom (token_to_idx (Vocab_init c mf sp)) = set (idx_to_token (Vocab_init c mf sp))"
    by (rule Vocab_dom)
qed

theorem Vocab_round_trip_witness:
  "0 \<le> (2::int) \<and> 2 < Vocab_len (Vocab_init [[''b'', ''a''], [''c'', ''a'']] 2 True)
   \<and> (\<exists>t. py_index (idx_to_token (Vocab_init [[''b'', ''a''], [''c'', ''a'']] 2 True)) 2 = Inr t
          \<and> token_to_idx (Vocab_init [[''b'', ''a''], [''c'', ''a'']] 2 True) t = Some 2)
   \<and> ''a'' \<in> set (idx_to_token (Vocab_init [[''b'', ''a''], [''c'', ''a'']] 2 True))
   \<and> to_tokens (Vocab_init [[''b'', ''a''], [''c'', ''a'']] 2 True)
        (getitem (Vocab_init [[''b'', ''a''], [''c'', ''a'']] 2 True) (One ''a'')) = Inr (One ''a'')
   \<and> ''b'' \<notin> set (idx_to_token (Vocab_init [[''b'', ''a''], [''c'', ''a'']] 2 True))
   \<and> getitem (Vocab_init [[''b'', ''a''], [''c'', ''a'']] 2 True) (One ''b'') = One 3
   \<and> unk (Vocab_init [[''b'', ''a''], [''c'', ''a'']] 2 True) = 3"
proof -
  let ?v = "Vocab_init [[''b'', ''a''], [''c'', ''a'']] 2 True"
  have u: "idx_to_token ?v = [''<pad>'', ''<bos>'', ''<eos>'', ''<unk>'', ''a'']"
    by code_simp
  have h: "0 \<le> (2::int) \<and> 2 < Vocab_len ?v" "''a'' \<in> set (idx_to_token ?v)"
    "''b'' \<notin> set (idx_to_token ?v)"
    by (simp_all add: Vocab_len_def u)
  have k: "unk ?v = 3" by (simp add: Vocab_fields(2))
  from Vocab_round_trip [of "[[''b'', ''a''], [''c'', ''a'']]" 2 True] h k show ?thesis
    by (metis (no_types, lifting))
qed

text \<open>
  C9, as the code has it. Among corpus tokens of equal count, where the greater token
  is not a special token and the count reaches \<open>min_freq\<close>, the lexicographically
  smaller token has the strictly smaller index. The vocabulary depends on the corpus
  only through the number of occurrences of each token: corpora with the same tokens
  the same number of times, in any order and any split into sentences, give the same
  \<open>Vocab\<close>.
\<close>

theorem Vocab_ties_by_token:
  "(\<forall>a b. a \<in> set (concat corpus) \<and> b \<in> set (concat corpus)
          \<and> b \<notin> set (special_tokens sp) \<and> mf \<le> int (count_list (concat corpus) b)
          \<and> count_list (concat corpus) a = count_list (concat corpus) b \<and> a < b \<longrightarrow>
        (\<exists>i j. token_to_idx (Vocab_init corpus mf sp) a = Some i
              \<and> token_to_idx (Vocab_init corpus mf sp) b = Some j \<and> i < j))
   \<and> (mset (concat corpus) = mset (concat corpus') \<longrightarrow>
        Vocab_init corpus mf sp = Vocab_init corpus' mf sp)"
proof (intro conjI allI impI)
  fix a b
  assume h: "a \<in> set (concat corpus) \<and> b \<in> set (concat corpus)
          \<and> b \<notin> set (special_tokens sp) \<and> mf \<le> int (count_list (concat corpus) b)
          \<and> count_list (concat corpus) a = count_list (concat corpus) b \<and> a < b"
  then have "freq_order (a, count_list (concat corpus) a) (b, count_list (concat corpus) b)"
    by (simp add: freq_order_def)
  then show "\<exists>i j. token_to_idx (Vocab_init corpus mf sp) a = Some i
              \<and> token_to_idx (Vocab_init corpus mf sp) b = Some j \<and> i < j"
    using h by (intro Vocab_before) simp_all
next
  assume "mset (concat corpus) = mset (concat corpus')"
  then show "Vocab_init corpus mf sp = Vocab_init corpus' mf sp"
    by (rule Vocab_init_mset)
qed

theorem Vocab_ties_by_token_witness:
  "''a'' \<in> set (concat [[''b'', ''c''], [''a'', ''c'']])
   \<and> ''b'' \<in> set (concat [[''b'', ''c''], [''a'', ''c'']])
   \<and> ''b'' \<notin> set (special_tokens True)
   \<and> 1 \<le> int (count_list (concat [[''b'', ''c''], [''a'', ''c'']]) ''b'')
   \<and> count_list (concat [[''b'', ''c''], [''a'', ''c'']]) ''a''
       = count_list (concat [[''b'', ''c''], [''a'', ''c'']]) ''b''
   \<and> ''a'' < ''b''
   \<and> (\<exists>i j. token_to_idx (Vocab_init [[''b'', ''c''], [''a'', ''c'']] 1 True) ''a'' = Some i
           \<and> token_to_idx (Vocab_init [[''b'', ''c''], [''a'', ''c'']] 1 True) ''b'' = Some j
           \<and> i < j)
   \<and> mset (concat [[''b'', ''c''], [''a'', ''c'']]) = mset (concat [[''c'', ''a'', ''c'', ''b'']])
   \<and> Vocab_init [[''b'', ''c''], [''a'', ''c'']] 1 True = Vocab_init [[''c'', ''a'', ''c'', ''b'']] 1 True"
proof -
  let ?c = "[[''b'', ''c''], [''a'', ''c'']]"
  have h: "''a'' \<in> set (concat ?c) \<and> ''b'' \<in> set (concat ?c)
      \<and> ''b'' \<notin> set (special_tokens True) \<and> 1 \<le> int (count_list (concat ?c) ''b'')
      \<and> count_list (concat ?c) ''a'' = count_list (concat ?c) ''b'' \<and> ''a'' < ''b''"
    by (simp add: special_tokens_def)
  have m: "mset (concat ?c) = mset (concat [[''c'', ''a'', ''c'', ''b'']])"
    by simp
  from Vocab_ties_by_token [of ?c True 1 "[[''c'', ''a'', ''c'', ''b'']]"] h m
  show ?thesis by blast
qed

text \<open>
  C9 as stated fails for a special token: in the corpus of the two tokens \<open>''''\<close>
  (the empty token, as the notebook's own corpus has it) and \<open><unk>\<close>, each once, the
  empty token is the smaller one and has the greater index.
\<close>

theorem Vocab_ties_by_token_counterexample:
  "'''' \<in> set (concat [['''', ''<unk>'']])
   \<and> ''<unk>'' \<in> set (concat [['''', ''<unk>'']])
   \<and> count_list (concat [['''', ''<unk>'']]) '''' = 1
   \<and> count_list (concat [['''', ''<unk>'']]) ''<unk>'' = 1
   \<and> '''' < ''<unk>''
   \<and> token_to_idx (Vocab_init [['''', ''<unk>'']] 0 False) '''' = Some 1
   \<and> token_to_idx (Vocab_init [['''', ''<unk>'']] 0 False) ''<unk>'' = Some 0"
  by code_simp


section \<open>Properties of single-precision arithmetic\<close>

lemma grid_exp_ge: "e \<le> grid_exp k e x"
proof (induction k arbitrary: e)
  case 0
  show ?case by simp
next
  case (Suc k)
  show ?case using Suc [of "e + 1"] by simp
qed

lemma grid_exp_le:
  assumes "\<bar>x\<bar> < 2 powi (E + 24)" and "e \<le> E" and "E - e \<le> int k"
  shows "grid_exp k e x \<le> E"
  using assms
proof (induction k arbitrary: e)
  case 0
  then show ?case by simp
next
  case (Suc k)
  show ?case
  proof (cases "\<bar>x\<bar> < 2 powi (e + 24)")
    case True
    then show ?thesis using Suc.prems by simp
  next
    case False
    have "e \<noteq> E" using False Suc.prems(1) by auto
    then have "e + 1 \<le> E" "E - (e + 1) \<le> int k" using Suc.prems by auto
    from Suc.IH [OF Suc.prems(1) this] False show ?thesis by simp
  qed
qed

lemma round_half_even_of_int: "round_half_even (of_int z) = z"
  by (simp add: round_half_even_def)

text \<open>An integer of at most 24 bits is a single-precision number: rounding keeps it.\<close>

lemma round32_of_int:
  assumes "\<bar>m\<bar> < 2 ^ 24"
  shows "round32 (of_int m) = Fin (of_int m)"
proof -
  let ?x = "of_int m :: rat"
  let ?e = "grid_exp 253 (- 149) ?x"
  have "\<bar>?x\<bar> < 2 ^ 24" using assms
    by (metis of_int_abs of_int_less_numeral_power_cancel_iff)
  then have "\<bar>?x\<bar> < 2 powi (0 + 24)" by simp
  then have up: "?e \<le> 0" by (rule grid_exp_le) simp_all
  define j where "j = nat (- ?e)"
  have e: "?e = - int j" using up by (simp add: j_def)
  have p: "(2::rat) powi ?e = 1 / 2 ^ j" unfolding e by (simp add: power_int_minus field_simps)
  have "?x / 2 powi ?e = of_int (m * 2 ^ j)" unfolding p by simp
  then have n: "round_half_even (?x / 2 powi ?e) = m * 2 ^ j"
    by (simp only: round_half_even_of_int)
  have "of_int (m * 2 ^ j) * (2::rat) powi ?e = of_int m" unfolding p by simp
  then show ?thesis using up unfolding round32_def Let_def n by simp
qed

lemma f32_of_int_exact: "\<bar>n\<bar> \<le> 2047 \<Longrightarrow> f32_of_int n = f32_exact n"
  by (simp add: f32_of_int_def f32_exact_def round32_of_int)

lemma zero_exact: "Fin 0 = f32_exact 0"
  by (simp add: f32_exact_def)

lemma fmul_exact:
  "- 16777216 < a * b \<Longrightarrow> a * b < 16777216 \<Longrightarrow> fmul (f32_exact a) (f32_exact b) = f32_exact (a * b)"
  using round32_of_int [of "a * b"] by (simp add: f32_exact_def)

lemma fadd_exact:
  "- 16777216 < a + b \<Longrightarrow> a + b < 16777216 \<Longrightarrow> fadd (f32_exact a) (f32_exact b) = f32_exact (a + b)"
  using round32_of_int [of "a + b"] by (simp add: f32_exact_def)

lemma eq32_exact: "eq32 (f32_exact a) (f32_exact b) = (a = b)"
  by (simp add: eq32_def f32_exact_def)

lemma prod_bound:
  fixes a b :: int
  assumes "\<bar>a\<bar> \<le> 2047" and "\<bar>b\<bar> \<le> 2047"
  shows "- 4190209 \<le> a * b \<and> a * b \<le> 4190209"
proof -
  have "\<bar>a * b\<bar> \<le> 2047 * 2047"
    unfolding abs_mult using assms by (intro mult_mono) simp_all
  then show ?thesis by (simp add: abs_le_iff del: abs_mult)
qed

text \<open>
  A sum of products of integers is exact in whatever order the products are added, as
  long as the magnitudes of the products add up to less than \<open>2 ^ 24\<close>.
\<close>

lemma foldl_fadd_exact:
  assumes "\<bar>s\<bar> + sum_list (map (\<lambda>(a, b). \<bar>a * b\<bar>) ps) < 2 ^ 24"
  shows "foldl fadd (f32_exact s) (map (\<lambda>(a, b). fmul (f32_exact a) (f32_exact b)) ps)
           = f32_exact (s + sum_list (map (\<lambda>(a, b). a * b) ps))"
  using assms
proof (induction ps arbitrary: s)
  case Nil
  show ?case by simp
next
  case (Cons p ps)
  obtain a b where p: "p = (a, b)" by (cases p)
  have nn: "0 \<le> sum_list (map (\<lambda>(a, b). \<bar>a * b\<bar>) ps)"
    by (rule sum_list_nonneg) auto
  have ab: "- 16777216 < a * b" "a * b < 16777216" using Cons.prems nn by (simp_all add: p)
  have sab: "- 16777216 < s + a * b" "s + a * b < 16777216" using Cons.prems nn by (simp_all add: p)
  have "\<bar>s + a * b\<bar> + sum_list (map (\<lambda>(a, b). \<bar>a * b\<bar>) ps) < 2 ^ 24"
    using Cons.prems by (simp add: p)
  from Cons.IH [OF this] show ?case
    by (simp add: p fmul_exact [OF ab] fadd_exact [OF sab] add.assoc)
qed

lemma sum_of_products_any_order:
  assumes "mset qs = mset ps" and "sum_list (map (\<lambda>(a, b). \<bar>a * b\<bar>) ps) < 2 ^ 24"
  shows "foldl fadd (Fin 0) (map (\<lambda>(a, b). fmul (f32_exact a) (f32_exact b)) qs)
           = foldl fadd (Fin 0) (map (\<lambda>(a, b). fmul (f32_exact a) (f32_exact b)) ps)"
proof -
  have m: "sum_list (map f qs) = sum_list (map f ps)" for f :: "int \<times> int \<Rightarrow> int"
    using assms(1) by (metis mset_map sum_mset_sum_list)
  have "\<bar>0\<bar> + sum_list (map (\<lambda>(a, b). \<bar>a * b\<bar>) qs) < 2 ^ 24"
    "\<bar>0\<bar> + sum_list (map (\<lambda>(a, b). \<bar>a * b\<bar>) ps) < 2 ^ 24"
    using assms(2) by (simp_all add: m)
  then show ?thesis unfolding zero_exact by (simp only: foldl_fadd_exact m)
qed

section \<open>Properties of the transposed convolution\<close>

lemma upt_0_2: "[0..<2] = [0, Suc 0]"
  by (simp add: numeral_eq_Suc)


lemma replicate_3: "replicate 3 x = [x, x, x]"
  by (simp add: numeral_eq_Suc)

lemma replicate_5: "replicate 5 x = [x, x, x, x, x]"
  by (simp add: numeral_eq_Suc)

lemma replicate_9: "replicate 9 x = [x, x, x, x, x, x, x, x, x]"
  by (simp add: numeral_eq_Suc)

lemma kernel2matrix_2x2:
  "kernel2matrix [[k00, k01], [k10, k11]] =
     Inr [[k00, k01, Fin 0, k10, k11, Fin 0, Fin 0, Fin 0, Fin 0],
          [Fin 0, k00, k01, Fin 0, k10, k11, Fin 0, Fin 0, Fin 0],
          [Fin 0, Fin 0, Fin 0, k00, k01, Fin 0, k10, k11, Fin 0],
          [Fin 0, Fin 0, Fin 0, Fin 0, k00, k01, Fin 0, k10, k11]]"
  by (simp add: kernel2matrix_def assign_slice_def set_slice_def replicate_5 replicate_9)

lemma add_block_3x3:
  "add_block [[a, b, c], [d, e, f], [g, h, i]] 0 0 [[p, q], [r, s]]
     = [[fadd a p, fadd b q, c], [fadd d r, fadd e s, f], [g, h, i]]"
  "add_block [[a, b, c], [d, e, f], [g, h, i]] 0 (Suc 0) [[p, q], [r, s]]
     = [[a, fadd b p, fadd c q], [d, fadd e r, fadd f s], [g, h, i]]"
  "add_block [[a, b, c], [d, e, f], [g, h, i]] (Suc 0) 0 [[p, q], [r, s]]
     = [[a, b, c], [fadd d p, fadd e q, f], [fadd g r, fadd h s, i]]"
  "add_block [[a, b, c], [d, e, f], [g, h, i]] (Suc 0) (Suc 0) [[p, q], [r, s]]
     = [[a, b, c], [d, fadd e p, fadd f q], [g, fadd h r, fadd i s]]"
  by (simp_all add: add_block_def add_at_def)

lemma trans_conv_2x2_steps:
  "trans_conv [[x00, x01], [x10, x11]] [[k00, k01], [k10, k11]] =
     Inr (add_block (add_block (add_block (add_block
            [[Fin 0, Fin 0, Fin 0], [Fin 0, Fin 0, Fin 0], [Fin 0, Fin 0, Fin 0]]
            0 0 (scale x00 [[k00, k01], [k10, k11]]))
            0 (Suc 0) (scale x01 [[k00, k01], [k10, k11]]))
            (Suc 0) 0 (scale x10 [[k00, k01], [k10, k11]]))
            (Suc 0) (Suc 0) (scale x11 [[k00, k01], [k10, k11]]))"
  by (simp add: trans_conv_def ncols_def upt_0_2 zeros_def replicate_3)

text \<open>The entries of the result, with the order in which the loop adds the products.\<close>

lemma trans_conv_2x2:
  "trans_conv [[x00, x01], [x10, x11]] [[k00, k01], [k10, k11]] =
     Inr [[fadd (Fin 0) (fmul x00 k00),
           fadd (fadd (Fin 0) (fmul x00 k01)) (fmul x01 k00),
           fadd (Fin 0) (fmul x01 k01)],
          [fadd (fadd (Fin 0) (fmul x00 k10)) (fmul x10 k00),
           fadd (fadd (fadd (fadd (Fin 0) (fmul x00 k11)) (fmul x01 k10)) (fmul x10 k01))
             (fmul x11 k00),
           fadd (fadd (Fin 0) (fmul x01 k11)) (fmul x11 k01)],
          [fadd (Fin 0) (fmul x10 k10),
           fadd (fadd (Fin 0) (fmul x10 k11)) (fmul x11 k10),
           fadd (Fin 0) (fmul x11 k11)]]"
  unfolding trans_conv_2x2_steps
  by (simp add: scale_def add_block_3x3)




lemma dot_row_4:
  "dot (row # M) [v0, v1, v2, v3] =
     foldl fadd (Fin 0) (map2 fmul row [v0, v1, v2, v3]) # dot M [v0, v1, v2, v3]"
  "dot [] v = []"
  by (simp_all add: dot_def)

text \<open>
  On integers of magnitude at most 2047 every product is below \<open>2 ^ 22\<close> and every
  sum of four products below \<open>2 ^ 24\<close>: nothing is rounded.
\<close>

lemma trans_conv_small:
  assumes x: "\<bar>x00\<bar> \<le> 2047" "\<bar>x01\<bar> \<le> 2047" "\<bar>x10\<bar> \<le> 2047" "\<bar>x11\<bar> \<le> 2047"
    and k: "\<bar>k00\<bar> \<le> 2047" "\<bar>k01\<bar> \<le> 2047" "\<bar>k10\<bar> \<le> 2047" "\<bar>k11\<bar> \<le> 2047"
  shows "trans_conv [[f32_exact x00, f32_exact x01], [f32_exact x10, f32_exact x11]]
           [[f32_exact k00, f32_exact k01], [f32_exact k10, f32_exact k11]] =
     Inr [[f32_exact (x00 * k00), f32_exact (x00 * k01 + x01 * k00), f32_exact (x01 * k01)],
          [f32_exact (x00 * k10 + x10 * k00),
           f32_exact (x00 * k11 + x01 * k10 + x10 * k01 + x11 * k00),
           f32_exact (x01 * k11 + x11 * k01)],
          [f32_exact (x10 * k10), f32_exact (x10 * k11 + x11 * k10), f32_exact (x11 * k11)]]"
proof -
  note pb = x [THEN prod_bound, OF k(1)] x [THEN prod_bound, OF k(2)]
    x [THEN prod_bound, OF k(3)] x [THEN prod_bound, OF k(4)]
  show ?thesis
    unfolding trans_conv_2x2 zero_exact using pb by (simp add: fmul_exact fadd_exact)
qed


lemma corr2d_small:
  assumes x: "\<bar>a\<bar> \<le> 2047" "\<bar>b\<bar> \<le> 2047" "\<bar>c\<bar> \<le> 2047" "\<bar>d\<bar> \<le> 2047" "\<bar>e\<bar> \<le> 2047"
      "\<bar>f\<bar> \<le> 2047" "\<bar>g\<bar> \<le> 2047" "\<bar>h\<bar> \<le> 2047" "\<bar>i\<bar> \<le> 2047"
    and k: "\<bar>k00\<bar> \<le> 2047" "\<bar>k01\<bar> \<le> 2047" "\<bar>k10\<bar> \<le> 2047" "\<bar>k11\<bar> \<le> 2047"
  shows "corr2d [[f32_exact a, f32_exact b, f32_exact c], [f32_exact d, f32_exact e, f32_exact f],
                 [f32_exact g, f32_exact h, f32_exact i]]
           [[f32_exact k00, f32_exact k01], [f32_exact k10, f32_exact k11]] =
     [[f32_exact (a * k00 + b * k01 + d * k10 + e * k11),
       f32_exact (b * k00 + c * k01 + e * k10 + f * k11)],
      [f32_exact (d * k00 + e * k01 + g * k10 + h * k11),
       f32_exact (e * k00 + f * k01 + h * k10 + i * k11)]]"
proof -
  note pb = x [THEN prod_bound, OF k(1)] x [THEN prod_bound, OF k(2)]
    x [THEN prod_bound, OF k(3)] x [THEN prod_bound, OF k(4)]
  show ?thesis
    unfolding zero_exact using pb
    by (simp add: corr2d_def ncols_def upt_0_2 zero_exact fmul_exact fadd_exact)
qed



text \<open>The outputs the notebook records for its examples.\<close>

lemma trans_conv_notebook_output:
  "trans_conv (map (map f32_of_int) [[0, 1], [2, 3]]) (map (map f32_of_int) [[0, 1], [2, 3]])
     = Inr [[Fin 0, Fin 0, Fin 1], [Fin 0, Fin 4, Fin 6], [Fin 4, Fin 12, Fin 9]]"
  by (simp add: f32_of_int_exact trans_conv_small) (simp add: f32_exact_def)

lemma kernel2matrix_notebook_output:
  "kernel2matrix (map (map f32_of_int) [[0, 1], [2, 3]]) =
     Inr [[Fin 0, Fin 1, Fin 0, Fin 2, Fin 3, Fin 0, Fin 0, Fin 0, Fin 0],
          [Fin 0, Fin 0, Fin 1, Fin 0, Fin 2, Fin 3, Fin 0, Fin 0, Fin 0],
          [Fin 0, Fin 0, Fin 0, Fin 0, Fin 1, Fin 0, Fin 2, Fin 3, Fin 0],
          [Fin 0, Fin 0, Fin 0, Fin 0, Fin 0, Fin 1, Fin 0, Fin 2, Fin 3]]"
  by (simp add: f32_of_int_exact kernel2matrix_2x2) (simp add: f32_exact_def)

lemma corr2d_notebook_output:
  "corr2d (map (map f32_of_int) [[0, 1, 2], [3, 4, 5], [6, 7, 8]])
     (map (map f32_of_int) [[0, 1], [2, 3]]) = [[Fin 19, Fin 25], [Fin 37, Fin 43]]"
  by (simp add: f32_of_int_exact corr2d_small) (simp add: f32_exact_def)




section \<open>Properties of \<open>CTRDataset\<close>\<close>

subsection \<open>Reading the lines\<close>

lemma nth_tail:
  assumes "length vs = n + 1"
  shows "map (\<lambda>i. vs ! i) [1..<n + 1] = tl vs"
proof -
  from assms obtain v ws where vs: "vs = v # ws" and n: "length ws = n" by (cases vs) auto
  have "[1..<n + 1] = [Suc 0..<Suc n]" by simp
  then have "[1..<n + 1] = map Suc [0..<n]" by (simp only: map_Suc_upt)
  then have "map (\<lambda>i. vs ! i) [1..<n + 1] = map (\<lambda>i. ws ! i) [0..<n]"
    by (simp only: vs map_map o_def nth_Cons_Suc)
  also have "\<dots> = ws" using n map_nth [of ws] by simp
  finally show ?thesis by (simp add: vs)
qed

lemma read_line_skip:
  "\<not> well_formed n line \<Longrightarrow> read_line to_int to_float32 n line st = Inr st"
  by (cases st) (simp add: read_line_def well_formed_def)

lemma read_line_store:
  assumes "well_formed n line" and "label_ok to_int to_float32 line"
  shows "\<exists>f. to_float32 (line_values line ! 0) = Some f
     \<and> read_line to_int to_float32 n line (c, d, fc)
         = Inr (c + 1,
                d(c \<mapsto> \<lparr> inst_y = [f],
                          inst_x = (if n = 0 then None else Some (tl (line_values line))) \<rparr>),
                fold (\<lambda>i. feat_add (int i) (line_values line ! i)) [1..<n + 1] fc)"
proof -
  from assms(2) obtain k f where k: "to_int (line_values line ! 0) = Some k" "- 2 \<le> k" "k < 2"
    and f: "to_float32 (line_values line ! 0) = Some f"
    by (auto simp: label_ok_def split: option.splits)
  have tl: "map (\<lambda>i. line_values line ! i) [1..<n + 1] = tl (line_values line)"
    using assms(1) by (intro nth_tail) (simp add: well_formed_def)
  have "read_line to_int to_float32 n line (c, d, fc)
         = Inr (c + 1,
                d(c \<mapsto> \<lparr> inst_y = [f],
                          inst_x = (if n = 0 then None
                                    else Some (map (\<lambda>i. line_values line ! i) [1..<n + 1])) \<rparr>),
                fold (\<lambda>i. feat_add (int i) (line_values line ! i)) [1..<n + 1] fc)"
    using assms(1) k f by (simp add: read_line_def well_formed_def Let_def del: upt_Suc)
  then show ?thesis using f unfolding tl by blast
qed

lemma read_line_raise:
  assumes "well_formed n line" and "\<not> label_ok to_int to_float32 line"
  shows "\<exists>e. read_line to_int to_float32 n line st = Inl e"
  using assms
  by (cases st) (auto simp: read_line_def well_formed_def label_ok_def Let_def split: option.splits)

lemma read_lines_returns:
  "(\<exists>st'. read_lines to_int to_float32 n lines st = Inr st')
     \<longleftrightarrow> (\<forall>line \<in> set (filter (well_formed n) lines). label_ok to_int to_float32 line)"
proof (induction lines arbitrary: st)
  case Nil
  have "\<exists>st'. st = st'" by blast
  then show ?case by simp
next
  case (Cons line rest)
  obtain c d fc where st: "st = (c, d, fc)" by (metis prod_cases3)
  show ?case
  proof (cases "well_formed n line")
    case False
    then show ?thesis using Cons.IH [of st] by (simp add: read_line_skip)
  next
    case wf: True
    show ?thesis
    proof (cases "label_ok to_int to_float32 line")
      case True
      from read_line_store [OF wf True, of c d fc] obtain st1 where
        "read_line to_int to_float32 n line st = Inr st1" unfolding st by blast
      then show ?thesis using Cons.IH [of st1] wf True by simp
    next
      case False
      from read_line_raise [OF wf False, of st] obtain e where
        "read_line to_int to_float32 n line st = Inl e" by blast
      then show ?thesis using wf False by simp
    qed
  qed
qed

lemma read_lines_records:
  assumes "read_lines to_int to_float32 n lines (c, d, fc) = Inr (c', d', fc')"
  shows "c' = c + int (length (filter (well_formed n) lines))
     \<and> (\<forall>k. k < c \<or> c' \<le> k \<longrightarrow> d' k = d k)
     \<and> (\<forall>j < length (filter (well_formed n) lines).
          \<exists>f. to_float32 (line_values (filter (well_formed n) lines ! j) ! 0) = Some f
            \<and> d' (c + int j)
                = Some \<lparr> inst_y = [f],
                         inst_x = (if n = 0 then None
                                   else Some (tl (line_values (filter (well_formed n) lines ! j)))) \<rparr>)"
  using assms
proof (induction lines arbitrary: c d fc)
  case Nil
  then show ?case by simp
next
  case (Cons line rest)
  show ?case
  proof (cases "well_formed n line")
    case False
    then have rd: "read_lines to_int to_float32 n rest (c, d, fc) = Inr (c', d', fc')"
      using Cons.prems by (simp add: read_line_skip)
    have flt: "filter (well_formed n) (line # rest) = filter (well_formed n) rest"
      using False by simp
    show ?thesis unfolding flt by (rule Cons.IH [OF rd])
  next
    case wf: True
    have ok: "label_ok to_int to_float32 line"
    proof (rule ccontr)
      assume "\<not> label_ok to_int to_float32 line"
      from read_line_raise [OF wf this, of "(c, d, fc)"] Cons.prems show False by auto
    qed
    from read_line_store [OF wf ok, of c d fc] obtain f where
      f: "to_float32 (line_values line ! 0) = Some f"
      and rl: "read_line to_int to_float32 n line (c, d, fc)
         = Inr (c + 1,
                d(c \<mapsto> \<lparr> inst_y = [f],
                          inst_x = (if n = 0 then None else Some (tl (line_values line))) \<rparr>),
                fold (\<lambda>i. feat_add (int i) (line_values line ! i)) [1..<n + 1] fc)"
      by blast
    let ?d1 = "d(c \<mapsto> \<lparr> inst_y = [f],
                          inst_x = (if n = 0 then None else Some (tl (line_values line))) \<rparr>)"
    let ?fc1 = "fold (\<lambda>i. feat_add (int i) (line_values line ! i)) [1..<n + 1] fc"
    have "read_lines to_int to_float32 n rest (c + 1, ?d1, ?fc1) = Inr (c', d', fc')"
      using Cons.prems rl by simp
    from Cons.IH [OF this] have
      ih1: "c' = c + 1 + int (length (filter (well_formed n) rest))"
      and ih2: "\<forall>k. k < c + 1 \<or> c' \<le> k \<longrightarrow> d' k = ?d1 k"
      and ih3: "\<forall>j < length (filter (well_formed n) rest).
          \<exists>f. to_float32 (line_values (filter (well_formed n) rest ! j) ! 0) = Some f
            \<and> d' (c + 1 + int j)
                = Some \<lparr> inst_y = [f],
                         inst_x = (if n = 0 then None
                                   else Some (tl (line_values (filter (well_formed n) rest ! j)))) \<rparr>"
      by blast+
    have flt: "filter (well_formed n) (line # rest) = line # filter (well_formed n) rest"
      using wf by simp
    show ?thesis unfolding flt
    proof (intro conjI allI impI)
      show "c' = c + int (length (line # filter (well_formed n) rest))" using ih1 by simp
    next
      fix k assume "k < c \<or> c' \<le> k"
      then have "d' k = ?d1 k" "k \<noteq> c" using ih1 ih2 by auto
      then show "d' k = d k" by simp
    next
      fix j assume j: "j < length (line # filter (well_formed n) rest)"
      show "\<exists>f. to_float32 (line_values ((line # filter (well_formed n) rest) ! j) ! 0) = Some f
            \<and> d' (c + int j)
                = Some \<lparr> inst_y = [f],
                         inst_x = (if n = 0 then None
                                   else Some (tl (line_values ((line # filter (well_formed n) rest) ! j)))) \<rparr>"
      proof (cases j)
        case 0
        have "d' c = ?d1 c" using ih2 by simp
        then show ?thesis using 0 f by simp
      next
        case (Suc j')
        then have "j' < length (filter (well_formed n) rest)" using j by simp
        with ih3 have r: "\<exists>f. to_float32 (line_values (filter (well_formed n) rest ! j') ! 0) = Some f
            \<and> d' (c + 1 + int j')
                = Some \<lparr> inst_y = [f],
                         inst_x = (if n = 0 then None
                                   else Some (tl (line_values (filter (well_formed n) rest ! j')))) \<rparr>"
          by blast
        have eq: "c + int (Suc j') = c + 1 + int j'" by simp
        show ?thesis unfolding Suc nth_Cons_Suc eq by (rule r)
      qed
    qed
  qed
qed

subsection \<open>The feature mapper and \<open>__getitem__\<close>\<close>

lemma keys_feat_add: "fst ` set (feat_add i v fc) = insert i (fst ` set fc)"
  by (induction i v fc rule: feat_add.induct) auto

lemma keys_fold_feat_add:
  "fst ` set (fold (\<lambda>i. feat_add (int i) (vs ! i)) js fc) = fst ` set fc \<union> int ` set js"
proof (induction js arbitrary: fc)
  case Nil
  show ?case by simp
next
  case (Cons j js)
  show ?case by (simp add: Cons.IH keys_feat_add)
qed

lemma read_line_keys:
  assumes "read_line to_int to_float32 n line (c, d, fc) = Inr (c', d', fc')"
  shows "fst ` set fc' = fst ` set fc \<union> (if c' = c then {} else int ` {1..n})"
proof (cases "well_formed n line")
  case False
  then show ?thesis using assms by (simp add: read_line_skip)
next
  case wf: True
  have ok: "label_ok to_int to_float32 line"
  proof (rule ccontr)
    assume "\<not> label_ok to_int to_float32 line"
    from read_line_raise [OF wf this, of "(c, d, fc)"] assms show False by auto
  qed
  from read_line_store [OF wf ok, of c d fc] assms
  have "c' = c + 1" "fc' = fold (\<lambda>i. feat_add (int i) (line_values line ! i)) [1..<n + 1] fc"
    by auto
  moreover have "set [1..<n + 1] = {1..n}" by auto
  ultimately show ?thesis by (simp only: keys_fold_feat_add) simp
qed

lemma read_lines_keys:
  assumes "read_lines to_int to_float32 n lines (c, d, fc) = Inr (c', d', fc')"
  shows "fst ` set fc' = fst ` set fc \<union> (if c' = c then {} else int ` {1..n})"
  using assms
proof (induction lines arbitrary: c d fc)
  case Nil
  then show ?case by simp
next
  case (Cons line rest)
  from Cons.prems obtain c1 d1 fc1 where
    one: "read_line to_int to_float32 n line (c, d, fc) = Inr (c1, d1, fc1)"
    and more: "read_lines to_int to_float32 n rest (c1, d1, fc1) = Inr (c', d', fc')"
    by (auto split: sum.splits)
  have "c1 = c \<or> c1 = c + 1"
    using one read_line_skip [of n line to_int to_float32 "(c, d, fc)"]
      read_line_store [of n line to_int to_float32 c d fc]
      read_line_raise [of n line to_int to_float32 "(c, d, fc)"]
    by (cases "well_formed n line"; cases "label_ok to_int to_float32 line") auto
  moreover have "c1 \<le> c'" using read_lines_records [OF more] by simp
  ultimately show ?case
    using read_line_keys [OF one] Cons.IH [OF more] by (auto split: if_splits)
qed

lemma array_set_length: "array_set xs i v = Inr ys \<Longrightarrow> length ys = length xs"
  by (auto simp: array_set_def split: if_splits)

lemma set_field_dims_length: "set_field_dims m dims = Inr dims' \<Longrightarrow> length dims' = length dims"
proof (induction m arbitrary: dims)
  case Nil
  then show ?case by simp
next
  case (Cons p m)
  obtain i fm where p: "p = (i, fm)" by (cases p)
  from Cons.prems obtain dims1 where
    "array_set dims (i - 1) (int (length fm) + 1) = Inr dims1"
    "set_field_dims m dims1 = Inr dims'"
    by (auto simp: p split: sum.splits)
  then show ?case using Cons.IH [of dims1] array_set_length by fastforce
qed

lemma set_field_dims_total:
  assumes "\<forall>i \<in> fst ` set m. 1 \<le> i \<and> i \<le> int (length dims)"
  shows "\<exists>dims'. set_field_dims m dims = Inr dims'"
  using assms
proof (induction m arbitrary: dims)
  case Nil
  show ?case by simp
next
  case (Cons p m)
  obtain i fm where p: "p = (i, fm)" by (cases p)
  have i: "1 \<le> i" "i \<le> int (length dims)" using Cons.prems by (simp_all add: p)
  then obtain dims1 where a: "array_set dims (i - 1) (int (length fm) + 1) = Inr dims1"
    by (simp add: array_set_def)
  then have "length dims1 = length dims" by (rule array_set_length)
  then have "\<exists>dims'. set_field_dims m dims1 = Inr dims'"
    using Cons.prems by (intro Cons.IH) simp
  then show ?case by (simp add: p a)
qed

lemma length_cumsum_from: "length (cumsum_from acc xs) = length xs"
  by (induction xs arbitrary: acc) simp_all


lemma init_reads:
  assumes "CTRDataset_init si ti tf lines fm df mt n = Inr ds"
  shows "\<exists>fc. read_lines ti tf n lines (0, Map.empty, []) = Inr (count_ds ds, data ds, fc)"
  using assms
  by (auto simp: CTRDataset_init_def Let_def split: sum.splits prod.splits option.splits if_splits)

lemma init_default:
  assumes "read_lines ti tf n lines (0, Map.empty, []) = Inr (c, d, fc)"
  shows "\<exists>ds m dflt. CTRDataset_init si ti tf lines None None mt n = Inr ds
     \<and> count_ds ds = c \<and> data ds = d \<and> feat_mapper ds = Some m \<and> defaults ds = Some dflt
     \<and> fst ` set m = fst ` set fc \<and> fst ` set dflt = fst ` set fc
     \<and> length (offsets ds) = (if n = 0 then 1 else n)"
proof -
  let ?sets = "map (\<lambda>(i, c). (i, si (map fst (filter (\<lambda>(feat, k). mt \<le> int k) c)))) fc"
  let ?m = "map (\<lambda>(i, s). (i, zip s (map int [0..<length s]))) ?sets"
  let ?d = "map (\<lambda>(i, s). (i, int (length s))) ?sets"
  have km: "fst ` set ?m = fst ` set fc" by force
  have kd: "fst ` set ?d = fst ` set fc" by force
  have "fst ` set fc = (if c = 0 then {} else int ` {1..n})"
    using read_lines_keys [OF assms] by simp
  then have "\<forall>i \<in> fst ` set ?m. 1 \<le> i \<and> i \<le> int (length (replicate n (0::int)))"
    unfolding km by (auto split: if_splits)
  from set_field_dims_total [OF this] obtain dims where
    dims: "set_field_dims ?m (replicate n 0) = Inr dims" by blast
  then have "length dims = n" using set_field_dims_length by fastforce
  then have "length (0 # butlast (cumsum dims)) = (if n = 0 then 1 else n)"
    by (simp add: cumsum_def length_cumsum_from)
  then show ?thesis
    using assms dims km kd
    by (simp add: CTRDataset_init_def Let_def)
qed

subsection \<open>Concrete files\<close>

lemma demo_lines:
  "well_formed 34 click_line" "well_formed 34 no_click_line" "well_formed 34 bad_label_line"
  "\<not> well_formed 34 ''no tabs here''"
  "label_ok py_int py_float32 click_line" "label_ok py_int py_float32 no_click_line"
  "py_float32 (line_values click_line ! 0) = Some 1"
  "py_float32 (line_values no_click_line ! 0) = Some 0"
  by code_simp+


subsection \<open>Claims about \<open>CTRDataset\<close>\<close>

text \<open>
  C10, as the code has it. Whenever the constructor returns, a line is stored as a
  record if and only if it has \<open>NUM_FEATS + 1\<close> tab-separated values: \<open>__len__\<close> is the
  number of such lines, the keys of \<open>data\<close> are \<open>0, ..., len - 1\<close>, and record \<open>j\<close>
  holds the label and the features of the \<open>j\<close>-th such line in file order. With the
  default mapper arguments the constructor returns exactly when the first value of
  every such line is accepted as a label; otherwise it raises.
\<close>

theorem CTRDataset_stores_well_formed_lines:
  "(CTRDataset_init si ti tf lines fm df mt n = Inr ds \<longrightarrow>
      CTRDataset_len ds = int (length (filter (well_formed n) lines))
      \<and> (\<forall>k. data ds k \<noteq> None \<longleftrightarrow> 0 \<le> k \<and> k < CTRDataset_len ds)
      \<and> (\<forall>j < length (filter (well_formed n) lines).
            \<exists>f. tf (line_values (filter (well_formed n) lines ! j) ! 0) = Some f
              \<and> data ds (int j)
                  = Some \<lparr> inst_y = [f],
                           inst_x = (if n = 0 then None
                                     else Some (tl (line_values (filter (well_formed n) lines ! j)))) \<rparr>))
   \<and> ((\<exists>ds' :: 'f CTRDataset. CTRDataset_init si ti tf lines None None mt n = Inr ds')
        \<longleftrightarrow> (\<forall>line \<in> set (filter (well_formed n) lines). label_ok ti tf line))"
proof (intro conjI impI)
  assume a: "CTRDataset_init si ti tf lines fm df mt n = Inr ds"
  let ?wf = "filter (well_formed n) lines"
  from init_reads [OF a] obtain fc where
    rd: "read_lines ti tf n lines (0, Map.empty, []) = Inr (count_ds ds, data ds, fc)" by blast
  from read_lines_records [OF rd] have
    c: "count_ds ds = int (length ?wf)"
    and fr: "\<forall>k. k < 0 \<or> count_ds ds \<le> k \<longrightarrow> data ds k = None"
    and st: "\<forall>j < length ?wf.
            \<exists>f. tf (line_values (?wf ! j) ! 0) = Some f
              \<and> data ds (0 + int j)
                  = Some \<lparr> inst_y = [f],
                           inst_x = (if n = 0 then None else Some (tl (line_values (?wf ! j)))) \<rparr>"
    by simp_all
  show "CTRDataset_len ds = int (length ?wf)" using c by (simp add: CTRDataset_len_def)
  show "\<forall>k. data ds k \<noteq> None \<longleftrightarrow> 0 \<le> k \<and> k < CTRDataset_len ds"
  proof
    fix k
    show "data ds k \<noteq> None \<longleftrightarrow> 0 \<le> k \<and> k < CTRDataset_len ds"
    proof (cases "0 \<le> k \<and> k < count_ds ds")
      case True
      then have "nat k < length ?wf" "int (nat k) = k" using c by auto
      with st have "data ds k \<noteq> None" by (metis add_0 option.distinct(1))
      with True show ?thesis by (simp add: CTRDataset_len_def)
    next
      case False
      then have "data ds k = None" using fr by auto
      with False show ?thesis by (simp add: CTRDataset_len_def)
    qed
  qed
  show "\<forall>j < length ?wf.
            \<exists>f. tf (line_values (?wf ! j) ! 0) = Some f
              \<and> data ds (int j)
                  = Some \<lparr> inst_y = [f],
                           inst_x = (if n = 0 then None else Some (tl (line_values (?wf ! j)))) \<rparr>"
    using st by (simp only: add_0)
next
  show "(\<exists>ds' :: 'f CTRDataset. CTRDataset_init si ti tf lines None None mt n = Inr ds')
        \<longleftrightarrow> (\<forall>line \<in> set (filter (well_formed n) lines). label_ok ti tf line)"
  proof
    assume "\<exists>ds' :: 'f CTRDataset. CTRDataset_init si ti tf lines None None mt n = Inr ds'"
    then obtain ds' :: "'f CTRDataset" where
      "CTRDataset_init si ti tf lines None None mt n = Inr ds'" by blast
    from init_reads [OF this] have "\<exists>st'. read_lines ti tf n lines (0, Map.empty, []) = Inr st'"
      by blast
    then show "\<forall>line \<in> set (filter (well_formed n) lines). label_ok ti tf line"
      by (simp only: read_lines_returns)
  next
    assume "\<forall>line \<in> set (filter (well_formed n) lines). label_ok ti tf line"
    then have "\<exists>st'. read_lines ti tf n lines (0, Map.empty, []) = Inr st'"
      by (simp only: read_lines_returns)
    then obtain c d fc where "read_lines ti tf n lines (0, Map.empty, []) = Inr (c, d, fc)"
      by (metis prod_cases3)
    from init_default [OF this, of si mt]
    show "\<exists>ds' :: 'f CTRDataset. CTRDataset_init si ti tf lines None None mt n = Inr ds'"
      by blast
  qed
qed

theorem CTRDataset_stores_well_formed_lines_witness:
  "well_formed 34 click_line \<and> \<not> well_formed 34 ''no tabs here'' \<and> well_formed 34 no_click_line
   \<and> label_ok py_int py_float32 click_line \<and> label_ok py_int py_float32 no_click_line
   \<and> (\<exists>ds. CTRDataset_init id py_int py_float32 [click_line, ''no tabs here'', no_click_line]
               None None 4 34 = Inr ds
          \<and> CTRDataset_len ds = 2 \<and> data ds 2 = None
          \<and> map_option inst_y (data ds 0) = Some [1]
          \<and> map_option inst_y (data ds 1) = Some [0])"
proof -
  let ?L = "[click_line, ''no tabs here'', no_click_line]"
  have flt: "filter (well_formed 34) ?L = [click_line, no_click_line]"
    by (simp add: demo_lines)
  have ok: "\<forall>line \<in> set (filter (well_formed 34) ?L). label_ok py_int py_float32 line"
    by (simp add: flt demo_lines)
  note T = CTRDataset_stores_well_formed_lines
    [where si = id and ti = py_int and tf = py_float32 and lines = ?L and fm = None
       and df = None and mt = 4 and n = 34]
  from T ok obtain ds :: "rat CTRDataset" where
    ds: "CTRDataset_init id py_int py_float32 ?L None None 4 34 = Inr ds" by blast
  from T [of ds] ds have
    len: "CTRDataset_len ds = int (length (filter (well_formed 34) ?L))"
    and dom: "\<forall>k. data ds k \<noteq> None \<longleftrightarrow> 0 \<le> k \<and> k < CTRDataset_len ds"
    and rec: "\<forall>j < length (filter (well_formed 34) ?L).
            \<exists>f. py_float32 (line_values (filter (well_formed 34) ?L ! j) ! 0) = Some f
              \<and> data ds (int j)
                  = Some \<lparr> inst_y = [f],
                           inst_x = (if (34::nat) = 0 then None
                                     else Some (tl (line_values (filter (well_formed 34) ?L ! j)))) \<rparr>"
    by blast+
  have l2: "CTRDataset_len ds = 2" using len unfolding flt by simp
  have "data ds 2 = None" using dom l2 by (metis less_irrefl)
  moreover have "map_option inst_y (data ds 0) = Some [1]"
    using rec [unfolded flt, rule_format, of 0] by (auto simp: demo_lines)
  moreover have "map_option inst_y (data ds 1) = Some [0]"
    using rec [unfolded flt, rule_format, of 1] by (auto simp: demo_lines)
  ultimately show ?thesis using ds l2 demo_lines by blast
qed

text \<open>
  C10 as stated fails on a file whose only line has 35 values, the first of them no
  number: the line is well formed, and the constructor raises \<open>ValueError\<close>, so
  that there is no dataset and no length.
\<close>

theorem CTRDataset_bad_label_counterexample:
  "well_formed 34 bad_label_line
   \<and> map_sum id CTRDataset_len
       (CTRDataset_init id py_int py_float32 [bad_label_line] None None 4 34
          :: py_error + rat CTRDataset) = Inl ValueError"
  by code_simp

text \<open>
  For one impression the ratio of clicks to impressions is the number of clicks, and
  the labels of a clicked and of a not clicked record are this ratio.
\<close>

lemma click_through_rate_one_impression: "click_through_rate k 1 = of_nat k"
  by (simp add: click_through_rate_def)

lemma CTRDataset_labels_of_two_records:
  "map_sum id snd
     (CTRDataset_getitem
        (projr (CTRDataset_init id py_int py_float32 [click_line, no_click_line] None None 4 34)) 0)
     = Inr [click_through_rate 1 1]
   \<and> map_sum id snd
       (CTRDataset_getitem
          (projr (CTRDataset_init id py_int py_float32 [click_line, no_click_line] None None 4 34)) 1)
       = Inr [click_through_rate 0 1]"
  by code_simp



section \<open>Properties of the symbolic program\<close>

lemma compile_defs:
  "compile (add_prog @ fancy_func_prog) =
     Inr [Def ''add'' [''a'', ''b''] [Return (Add (Name ''a'') (Name ''b''))],
          Def ''fancy_func'' [''a'', ''b'', ''c'', ''d'']
            [Assign ''e'' (Call ''add'' [Name ''a'', Name ''b'']),
             Assign ''f'' (Call ''add'' [Name ''c'', Name ''d'']),
             Assign ''g'' (Call ''add'' [Name ''e'', Name ''f'']),
             Return (Name ''g'')]]"
  by code_simp

lemma compile_evoke:
  "compile evoke_prog =
     Inr [Def ''add'' [''a'', ''b''] [Return (Add (Name ''a'') (Name ''b''))],
          Def ''fancy_func'' [''a'', ''b'', ''c'', ''d'']
            [Assign ''e'' (Call ''add'' [Name ''a'', Name ''b'']),
             Assign ''f'' (Call ''add'' [Name ''c'', Name ''d'']),
             Assign ''g'' (Call ''add'' [Name ''e'', Name ''f'']),
             Return (Name ''g'')],
          Print (Call ''fancy_func'' [Num 1, Num 2, Num 3, Num 4])]"
  by code_simp


lemma fancy_func_sum: "fancy_func a b c d = (a + b) + (c + d)"
  by (simp add: fancy_func_def add_def)

lemma eval_fancy_func:
  "eval (Suc (Suc (Suc (Suc (Suc (Suc (Suc (Suc k))))))))
     [(''fancy_func'', [''a'', ''b'', ''c'', ''d''],
         [Assign ''e'' (Call ''add'' [Name ''a'', Name ''b'']),
          Assign ''f'' (Call ''add'' [Name ''c'', Name ''d'']),
          Assign ''g'' (Call ''add'' [Name ''e'', Name ''f'']),
          Return (Name ''g'')]),
      (''add'', [''a'', ''b''], [Return (Add (Name ''a'') (Name ''b''))])]
     [] (Call ''fancy_func'' [Num a, Num b, Num c, Num d])
   = Inr ((a + b) + (c + d))"
  by simp

lemma exec_defs_print:
  "map_sum id snd
     (exec (k + 8)
        ([Def ''add'' [''a'', ''b''] [Return (Add (Name ''a'') (Name ''b''))],
          Def ''fancy_func'' [''a'', ''b'', ''c'', ''d'']
            [Assign ''e'' (Call ''add'' [Name ''a'', Name ''b'']),
             Assign ''f'' (Call ''add'' [Name ''c'', Name ''d'']),
             Assign ''g'' (Call ''add'' [Name ''e'', Name ''f'']),
             Return (Name ''g'')]]
         @ [Print (Call ''fancy_func'' [Num a, Num b, Num c, Num d])]) ([], []))
   = Inr [py_str (fancy_func a b c d)]"
proof -
  have k: "k + 8 = Suc (Suc (Suc (Suc (Suc (Suc (Suc (Suc k)))))))" by simp
  show ?thesis unfolding k by (simp add: eval_fancy_func fancy_func_sum del: eval.simps)
qed

lemma py_str_10: "py_str 10 = ''10''"
  by code_simp

text \<open>
  C6. The imperative \<open>fancy_func(a, b, c, d)\<close> returns \<open>(a + b) + (c + d)\<close>, which is 10
  for 1, 2, 3, 4. The program text of \<open>evoke_()\<close> compiles, and executed at any depth
  bound from 8 on it prints that value, 10. More generally the text of \<open>add_()\<close> and
  \<open>fancy_func_()\<close> compiles to definitions under which \<open>print(fancy_func(a, b, c, d))\<close>
  prints, for all integers, the value the imperative \<open>fancy_func\<close> returns.
\<close>

theorem symbolic_program_same_result:
  "fancy_func p q r s = (p + q) + (r + s)
   \<and> fancy_func (1::int) 2 3 4 = 10
   \<and> (\<forall>k. run (k + 8) evoke_prog = Inr [py_str (fancy_func 1 2 3 4)])
   \<and> (\<forall>k. run (k + 8) evoke_prog = Inr [''10''])
   \<and> (\<exists>defs. compile (add_prog @ fancy_func_prog) = Inr defs
         \<and> (\<forall>a b c d k.
               map_sum id snd
                 (exec (k + 8) (defs @ [Print (Call ''fancy_func'' [Num a, Num b, Num c, Num d])])
                    ([], []))
               = Inr [py_str (fancy_func a b c d)]))"
proof (intro conjI allI)
  show "fancy_func p q r s = (p + q) + (r + s)" by (rule fancy_func_sum)
  show v: "fancy_func (1::int) 2 3 4 = 10" by (simp add: fancy_func_sum)
  have ev: "compile evoke_prog = Inr
       ([Def ''add'' [''a'', ''b''] [Return (Add (Name ''a'') (Name ''b''))],
          Def ''fancy_func'' [''a'', ''b'', ''c'', ''d'']
            [Assign ''e'' (Call ''add'' [Name ''a'', Name ''b'']),
             Assign ''f'' (Call ''add'' [Name ''c'', Name ''d'']),
             Assign ''g'' (Call ''add'' [Name ''e'', Name ''f'']),
             Return (Name ''g'')]]
         @ [Print (Call ''fancy_func'' [Num 1, Num 2, Num 3, Num 4])])"
    by (simp add: compile_evoke)
  show r: "run (k + 8) evoke_prog = Inr [py_str (fancy_func 1 2 3 4)]" for k
    using exec_defs_print [of k 1 2 3 4]
    unfolding run_def ev by (auto split: sum.splits)
  show "run (k + 8) evoke_prog = Inr [''10'']" for k
    unfolding r v by (simp add: py_str_10)
  show "\<exists>defs. compile (add_prog @ fancy_func_prog) = Inr defs
         \<and> (\<forall>a b c d k.
               map_sum id snd
                 (exec (k + 8) (defs @ [Print (Call ''fancy_func'' [Num a, Num b, Num c, Num d])])
                    ([], []))
               = Inr [py_str (fancy_func a b c d)])"
    unfolding compile_defs using exec_defs_print by blast
qed

section \<open>Properties of the dependency manifest\<close>

text \<open>
  C7, as the manifest has it. The manifest has 20 requirement entries. Three of them
  pin an exact version: \<open>sphinx-gallery\<close> 0.3.1, \<open>awscli\<close> 1.16.35 and \<open>pillow\<close>
  6.2.0. The other 17 name a package, or a repository to install from, with no
  version.
\<close>

theorem manifest_pins_three_entries:
  "map (\<lambda>line. (line, pinned line)) (entries requirements_txt) =
     [(''sphinx'', None),
      (''sphinx-gallery==0.3.1'', Some (''sphinx-gallery'', ''0.3.1'')),
      (''tqdm'', None),
      (''numpy'', None),
      (''matplotlib'', None),
      (''torch'', None),
      (''torchvision'', None),
      (''torchtext'', None),
      (''torchaudio'', None),
      (''PyHamcrest'', None),
      (''bs4'', None),
      (''awscli==1.16.35'', Some (''awscli'', ''1.16.35'')),
      (''flask'', None),
      (''spacy'', None),
      (''-e git+git://github.com/pytorch/pytorch_sphinx_theme.git#egg=pytorch_sphinx_theme'', None),
      (''ipython'', None),
      (''pandas'', None),
      (''scikit-image'', None),
      (''pillow==6.2.0'', Some (''pillow'', ''6.2.0'')),
      (''wget'', None)]"
  by (simp add: entries_def requirements_txt_def is_entry_def)

text \<open>
  C7 as stated fails at the first entry: \<open>sphinx\<close> is a requirement entry and gives
  no version.
\<close>

theorem manifest_unpinned_counterexample:
  "''sphinx'' \<in> set (entries requirements_txt) \<and> pinned ''sphinx'' = None"
  by (simp add: entries_def requirements_txt_def is_entry_def)


end
